theory Spec2Isabelle
  imports Main "HOL-Library.Word" "HOL-Library.AList"
begin

unbundle bit_operations_syntax

section \<open>Common Go values\<close>

type_synonym byte = "8 word"
type_synonym uintptr = "64 word"  \<comment> \<open>as on 64-bit Linux, where the driver lives\<close>

text \<open>
  Go errors as values. \<open>Errorf prefix e\<close> stands for \<^verbatim>\<open>fmt.Errorf(prefix + "%v", e)\<close>
  (or \<^verbatim>\<open>%s\<close>): the text of the inner error is kept structurally. \<open>TypesError\<close> is
  \<^verbatim>\<open>*types.Error\<close> with its \<^verbatim>\<open>HTTPStatusCode\<close> and \<^verbatim>\<open>Message\<close>; it is the only error on
  which the type assertion \<^verbatim>\<open>err.(*types.Error)\<close> succeeds.
\<close>

datatype go_error =
    ErrorString string
  | Errorf string go_error
  | Errno nat
  | PathError string nat
  | TypesError int string
  | OtherError string

text \<open>
  What a Go call does: it returns its value with a nil error, returns a non-nil error
  (the value is then the zero value), or panics.
\<close>

datatype 'a outcome = Returns 'a | Fails go_error | Panics string

section \<open>The driver query channel\<close>

subsection \<open>Constants and op-codes\<close>

definition IOCTLBase :: uintptr where
  "IOCTLBase = 97"  \<comment> \<open>the rune \<^verbatim>\<open>'a'\<close>\<close>

definition IOCTLQueryGUID :: uintptr where
  "IOCTLQueryGUID = 14"

definition IOCTLQueryMDM :: uintptr where
  "IOCTLQueryMDM = 12"

definition IOCTLRescan :: uintptr where
  "IOCTLRescan = 10"

definition IOCTLDevice :: string where
  "IOCTLDevice = ''/dev/scini''"

definition mockGUID :: string where
  "mockGUID = ''9E56672F-2F4B-4A42-BFF4-88B6846FBFDA''"

definition mockSystem :: string where
  "mockSystem = ''000000000001''"

text \<open>
  \<^verbatim>\<open>_IOC(dir, t, nr, size) = (dir << 30) | (t << 8) | nr | (size << 16)\<close> on \<^verbatim>\<open>uintptr\<close>, and
  \<^verbatim>\<open>_IO(t, nr) = _IOC(0x0, t, nr, 0)\<close>; the names lose their leading underscore here.
\<close>

definition IOC :: "uintptr \<Rightarrow> uintptr \<Rightarrow> uintptr \<Rightarrow> uintptr \<Rightarrow> uintptr" where
  "IOC dir t nr sz = push_bit 30 dir OR push_bit 8 t OR nr OR push_bit 16 sz"

definition IO :: "uintptr \<Rightarrow> uintptr \<Rightarrow> uintptr" where
  "IO t nr = IOC 0 t nr 0"

subsection \<open>Library functions the decoders call\<close>

text \<open>\<^verbatim>\<open>hex.EncodeToString\<close>: two lower-case digits per byte, high nibble first.\<close>

definition hextable :: string where
  "hextable = ''0123456789abcdef''"

definition EncodeToString :: "byte list \<Rightarrow> string" where
  "EncodeToString src =
     concat (map (\<lambda>v. [hextable ! unat (drop_bit 4 v), hextable ! unat (v AND 0x0f)]) src)"

text \<open>
  \<^verbatim>\<open>strconv.ParseUint\<close> and \<^verbatim>\<open>strconv.ParseInt\<close> for an explicit base between 2 and 36 and
  bit size 64. A syntax error gives the value 0, a range error the nearest bound.
\<close>

datatype num_error = ErrSyntax | ErrRange

definition digit_val :: "char \<Rightarrow> int option" where
  "digit_val c =
     (let n = (of_char c :: int) in
      if 48 \<le> n \<and> n \<le> 57 then Some (n - 48)
      else if 97 \<le> n \<and> n \<le> 122 then Some (n - 97 + 10)
      else if 65 \<le> n \<and> n \<le> 90 then Some (n - 65 + 10)
      else None)"

fun ParseUint_digits :: "int \<Rightarrow> int \<Rightarrow> string \<Rightarrow> int \<times> num_error option" where
  "ParseUint_digits base n [] = (n, None)"
| "ParseUint_digits base n (c # cs) =
     (case digit_val c of
        None \<Rightarrow> (0, Some ErrSyntax)
      | Some d \<Rightarrow>
          if d \<ge> base then (0, Some ErrSyntax)
          else if n * base + d \<ge> 2 ^ 64 then (2 ^ 64 - 1, Some ErrRange)
          else ParseUint_digits base (n * base + d) cs)"

definition ParseUint :: "string \<Rightarrow> int \<Rightarrow> int \<times> num_error option" where
  "ParseUint s base = (if s = [] then (0, Some ErrSyntax) else ParseUint_digits base 0 s)"

definition ParseInt :: "string \<Rightarrow> int \<Rightarrow> int \<times> num_error option" where
  "ParseInt s base =
     (if s = [] then (0, Some ErrSyntax)
      else
        let neg = (hd s = CHR ''-'');
            s' = (if hd s = CHR ''+'' \<or> hd s = CHR ''-'' then tl s else s)
        in case ParseUint s' base of
             (un, Some ErrSyntax) \<Rightarrow> (0, Some ErrSyntax)
           | (un, e) \<Rightarrow>
               if \<not> neg \<and> un \<ge> 2 ^ 63 then (2 ^ 63 - 1, Some ErrRange)
               else if neg \<and> un > 2 ^ 63 then (- (2 ^ 63), Some ErrRange)
               else (if neg then - un else un, None))"

text \<open>
  \<^verbatim>\<open>strconv.FormatInt(i, 10)\<close>, also what \<^verbatim>\<open>%d\<close> prints. \<open>FormatUint\<close> prints the digits
  of a number that is not negative.
\<close>

function FormatUint :: "int \<Rightarrow> string" where
  "FormatUint n =
     (if n < 10 then [hextable ! nat n] else FormatUint (n div 10) @ [hextable ! nat (n mod 10)])"
  by pat_completeness auto
termination
  by (relation "measure nat") auto

declare FormatUint.simps [simp del]

definition FormatInt :: "int \<Rightarrow> string" where
  "FormatInt i = (if i < 0 then CHR ''-'' # FormatUint (- i) else FormatUint i)"

text \<open>
  \<^verbatim>\<open>fmt.Sprintf("%8.8x", v)\<close> for an unsigned value: lower-case hexadecimal digits, padded
  with zeros to the precision 8 and with blanks to the width 8.
\<close>

function hex_digits :: "int \<Rightarrow> string" where
  "hex_digits n =
     (if n < 16 then [hextable ! nat n] else hex_digits (n div 16) @ [hextable ! nat (n mod 16)])"
  by pat_completeness auto
termination
  by (relation "measure nat") auto

declare hex_digits.simps [simp del]

definition Sprintf_8_8x :: "32 word \<Rightarrow> string" where
  "Sprintf_8_8x v =
     (let ds = hex_digits (uint v);
          zs = replicate (8 - length ds) CHR ''0'' @ ds
      in replicate (8 - length zs) CHR '' '' @ zs)"

text \<open>
  \<^verbatim>\<open>uuid.Parse\<close> of github.com/google/uuid on the 32-character form, the only one
  \<^verbatim>\<open>hex.EncodeToString\<close> of 16 bytes produces: each pair of hexadecimal digits is one byte.
  The dashed, braced and URN forms (36, 38 and 45 characters) are not modelled and
  are reported as errors here. On an error the caller ignores it and keeps the bytes
  decoded so far, the rest zero. \<^verbatim>\<open>UUID.String\<close> prints the canonical 8-4-4-4-12 form.
\<close>

definition xtob :: "char \<Rightarrow> char \<Rightarrow> byte option" where
  "xtob x1 x2 =
     (case (digit_val x1, digit_val x2) of
        (Some a, Some b) \<Rightarrow> if a < 16 \<and> b < 16 then Some (word_of_int (a * 16 + b)) else None
      | _ \<Rightarrow> None)"

fun uuid_pairs :: "string \<Rightarrow> byte list \<times> bool" where
  "uuid_pairs (x1 # x2 # s) =
     (case xtob x1 x2 of
        None \<Rightarrow> ([], False)
      | Some b \<Rightarrow> (case uuid_pairs s of (bs, ok) \<Rightarrow> (b # bs, ok)))"
| "uuid_pairs s = ([], True)"

definition uuid_Parse :: "string \<Rightarrow> byte list \<times> bool" where
  "uuid_Parse s =
     (if length s = 32 then
        (case uuid_pairs s of (bs, ok) \<Rightarrow> (bs @ replicate (16 - length bs) 0, ok))
      else (replicate 16 0, False))"

definition uuid_String :: "byte list \<Rightarrow> string" where
  "uuid_String u =
     EncodeToString (take 4 u) @ ''-'' @ EncodeToString (take 2 (drop 4 u)) @ ''-'' @
     EncodeToString (take 2 (drop 6 u)) @ ''-'' @ EncodeToString (take 2 (drop 8 u)) @ ''-'' @
     EncodeToString (drop 10 u)"

text \<open>\<^verbatim>\<open>strings.ToUpper\<close> on ASCII text (the text here is hexadecimal digits and dashes).\<close>

definition ToUpper :: "string \<Rightarrow> string" where
  "ToUpper s =
     map (\<lambda>c. if 97 \<le> (of_char c :: int) \<and> (of_char c :: int) \<le> 122
              then char_of ((of_char c :: int) - 32) else c) s"

subsection \<open>Buffers and the device\<close>

text \<open>
  A fixed-size Go array \<^verbatim>\<open>[n]T\<close> is a function from the index to the element; only the
  indices below \<open>n\<close> are ever read, and an index expression checks the bound as Go does.
\<close>

record ioctlGUID =
  guid_rc :: "nat \<Rightarrow> byte"       \<comment> \<open>\<^verbatim>\<open>rc [8]byte\<close>\<close>
  guid_uuid :: "nat \<Rightarrow> byte"     \<comment> \<open>\<^verbatim>\<open>uuid [16]byte\<close>\<close>
  netIDMagic :: "32 word"
  netIDTime :: "32 word"

record netAddress =
  opaque :: "nat \<Rightarrow> byte"        \<comment> \<open>\<^verbatim>\<open>opaque [24]byte\<close>\<close>

record ioctlMdmInfo =
  mdm_filler :: "nat \<Rightarrow> byte"    \<comment> \<open>\<^verbatim>\<open>filler [4]byte\<close>\<close>
  mdmIDL :: "32 word"
  mdmIDH :: "32 word"
  sdcIDL :: "32 word"
  sdcIDH :: "32 word"
  installIDL :: "32 word"
  installIDH :: "32 word"
  numSockAddrs :: "64 word"
  addresses :: "nat \<Rightarrow> netAddress"  \<comment> \<open>\<^verbatim>\<open>addresses [16]netAddress\<close>\<close>

record ConfiguredCluster =
  SystemID :: string
  SdcID :: string

record ioctlQueryMDMs =
  mdms_rc :: "nat \<Rightarrow> byte"       \<comment> \<open>\<^verbatim>\<open>rc [8]byte\<close>\<close>
  numMdms :: "16 word"
  mdms_filler :: "nat \<Rightarrow> byte"   \<comment> \<open>\<^verbatim>\<open>filler [4]byte\<close>\<close>
  mdms :: "nat \<Rightarrow> ioctlMdmInfo"  \<comment> \<open>\<^verbatim>\<open>mdms [20]ioctlMdmInfo\<close>\<close>

definition len_mdms :: nat where
  "len_mdms = 20"

definition zero_ioctlGUID :: ioctlGUID where
  "zero_ioctlGUID = \<lparr>guid_rc = (\<lambda>_. 0), guid_uuid = (\<lambda>_. 0), netIDMagic = 0, netIDTime = 0\<rparr>"

definition zero_ioctlMdmInfo :: ioctlMdmInfo where
  "zero_ioctlMdmInfo =
     \<lparr>mdm_filler = (\<lambda>_. 0), mdmIDL = 0, mdmIDH = 0, sdcIDL = 0, sdcIDH = 0,
      installIDL = 0, installIDH = 0, numSockAddrs = 0,
      addresses = (\<lambda>_. \<lparr>opaque = (\<lambda>_. 0)\<rparr>)\<rparr>"

definition zero_ioctlQueryMDMs :: ioctlQueryMDMs where
  "zero_ioctlQueryMDMs =
     \<lparr>mdms_rc = (\<lambda>_. 0), numMdms = 0, mdms_filler = (\<lambda>_. 0), mdms = (\<lambda>_. zero_ioctlMdmInfo)\<rparr>"

text \<open>
  The device behind \<^verbatim>\<open>SDCDevice\<close>: whether \<^verbatim>\<open>os.Open\<close> succeeds, and for each of the three
  buffers what the driver answers to an ioctl: the errno of the system call (0 for
  success) and the buffer as the driver leaves it, given the op-code and the buffer
  passed in.
\<close>

record device =
  open_error :: "go_error option"
  ioctl_guid :: "uintptr \<Rightarrow> ioctlGUID \<Rightarrow> nat \<times> ioctlGUID"
  ioctl_mdms :: "uintptr \<Rightarrow> ioctlQueryMDMs \<Rightarrow> nat \<times> ioctlQueryMDMs"
  ioctl_rescan :: "uintptr \<Rightarrow> 64 word \<Rightarrow> nat \<times> 64 word"

text \<open>What a call did to the device, in order.\<close>

datatype dev_op = DevOpen | DevIoctl uintptr | DevClose

text \<open>\<^verbatim>\<open>ioctl(fd, op, arg)\<close>: the system call, and \<^verbatim>\<open>syscall.Errno(ep)\<close> when \<^verbatim>\<open>ep != 0\<close>.\<close>

definition ioctl :: "(uintptr \<Rightarrow> 'b \<Rightarrow> nat \<times> 'b) \<Rightarrow> uintptr \<Rightarrow> 'b \<Rightarrow> go_error option \<times> 'b" where
  "ioctl drv op arg =
     (case drv op arg of (ep, buf) \<Rightarrow> (if ep \<noteq> 0 then Some (Errno ep) else None, buf))"

subsection \<open>The three queries\<close>

definition DrvCfgQueryGUID :: "bool \<Rightarrow> device \<Rightarrow> string outcome \<times> dev_op list" where
  "DrvCfgQueryGUID SCINIMockMode dev =
     (if SCINIMockMode then (Returns mockGUID, [])
      else case open_error dev of
        Some err \<Rightarrow> (Fails err, [DevOpen])
      | None \<Rightarrow>
          let opCode = IO IOCTLBase IOCTLQueryGUID;
              (err, buf) = ioctl (ioctl_guid dev) opCode zero_ioctlGUID;
              ops = [DevOpen, DevIoctl opCode, DevClose]
          in case err of
               Some e \<Rightarrow> (Fails (Errorf ''QueryGUID error: '' e), ops)
             | None \<Rightarrow>
                 let rc = fst (ParseInt (EncodeToString (map (guid_rc buf) [0..<1])) 16)
                 in if rc \<noteq> 65
                    then (Fails (ErrorString (''Request to query GUID failed, RC='' @ FormatInt rc)), ops)
                    else
                      let g = EncodeToString (map (guid_uuid buf) [0..<16]);
                          u = fst (uuid_Parse g);
                          discoveredGUID = ToUpper (uuid_String u)
                      in (Returns discoveredGUID, ops))"

definition DrvCfgQueryRescan :: "device \<Rightarrow> string outcome \<times> dev_op list" where
  "DrvCfgQueryRescan dev =
     (case open_error dev of
        Some err \<Rightarrow> (Fails (ErrorString ''Powerflex SDC is not installed''), [DevOpen])
      | None \<Rightarrow>
          let opCode = IO IOCTLBase IOCTLRescan;
              (err, rc) = ioctl (ioctl_rescan dev) opCode 0;
              ops = [DevOpen, DevIoctl opCode, DevClose]
          in case err of
               Some e \<Rightarrow> (Fails (Errorf ''Rescan error: '' e), ops)
             | None \<Rightarrow> (Returns (FormatInt (sint rc)), ops))"

text \<open>
  The decoding loop \<^verbatim>\<open>for i := uint16(0); i < buf.numMdms; i++\<close>. The index expression
  \<^verbatim>\<open>buf.mdms[i]\<close> panics when \<open>i\<close> is not below the array length.
\<close>

function decode_mdms ::
  "ioctlQueryMDMs \<Rightarrow> 16 word \<Rightarrow> ConfiguredCluster list \<Rightarrow> ConfiguredCluster list outcome" where
  "decode_mdms buf i clusters =
     (if i < numMdms buf then
        (if unat i < len_mdms then
           let systemID = Sprintf_8_8x (mdmIDH (mdms buf (unat i))) @ Sprintf_8_8x (mdmIDL (mdms buf (unat i)));
               sdcID = Sprintf_8_8x (sdcIDH (mdms buf (unat i))) @ Sprintf_8_8x (sdcIDL (mdms buf (unat i)));
               aCluster = \<lparr>SystemID = systemID, SdcID = sdcID\<rparr>
           in decode_mdms buf (i + 1) (clusters @ [aCluster])
         else Panics ''index out of range'')
      else Returns clusters)"
  by pat_completeness auto
termination
proof (relation "measure (\<lambda>(buf, i, clusters). unat (numMdms buf) - unat i)")
  show "wf (measure (\<lambda>(buf, i, clusters). unat (numMdms buf) - unat i))"
    by simp
next
  fix buf :: ioctlQueryMDMs and i :: "16 word" and clusters :: "ConfiguredCluster list"
    and x xa xb
  assume lt: "i < numMdms buf"
  then have "unat i < unat (numMdms buf)"
    by (simp add: word_less_nat_alt)
  moreover from lt have "unat (i + 1) = unat i + 1"
    by (metis (no_types, lifting) add.commute add_0 inc_i inc_le
        unat_plus_simple unsigned_0 unsigned_1 word_gt_0)
  ultimately show "((buf, i + 1, clusters @ [xb]), (buf, i, clusters))
      \<in> measure (\<lambda>(buf, i, clusters). unat (numMdms buf) - unat i)"
    by simp
qed

declare decode_mdms.simps [simp del]

definition DrvCfgQuerySystems :: "bool \<Rightarrow> device \<Rightarrow> ConfiguredCluster list outcome \<times> dev_op list" where
  "DrvCfgQuerySystems SCINIMockMode dev =
     (let clusters = [] in
      if SCINIMockMode then
        (let systemID = mockSystem;
             sdcID = mockGUID;
             aCluster = \<lparr>SystemID = systemID, SdcID = sdcID\<rparr>
         in (Returns (clusters @ [aCluster]), []))
      else case open_error dev of
        Some err \<Rightarrow> (Fails err, [DevOpen])
      | None \<Rightarrow>
          let opCode = IO IOCTLBase IOCTLQueryMDM;
              buf0 = zero_ioctlQueryMDMs\<lparr>numMdms := word_of_nat len_mdms\<rparr>;
              (err, buf) = ioctl (ioctl_mdms dev) opCode buf0;
              ops = [DevOpen, DevIoctl opCode, DevClose]
          in case err of
               Some e \<Rightarrow> (Fails (Errorf ''queryMDM error: '' e), ops)
             | None \<Rightarrow>
                 let rc = fst (ParseInt (EncodeToString (map (mdms_rc buf) [0..<1])) 16)
                 in if rc \<noteq> 65
                    then (Fails (ErrorString (''Request to query MDM failed, RC='' @ FormatInt rc)), ops)
                    else (decode_mdms buf 0 clusters, ops))"

subsection \<open>Sample devices\<close>

text \<open>
  Devices on which the definitions are evaluated: a driver that knows the three
  op-codes 0x610E, 0x610C and 0x610A (and fails with ENOTTY, 25, on any other), whose
  answers carry the return-code byte \<open>rc0\<close>, report \<open>n\<close> records and give the rescan code
  \<open>r\<close>; and a missing device.
\<close>

definition sample_guid_reply :: "byte \<Rightarrow> ioctlGUID" where
  "sample_guid_reply rc0 =
     \<lparr>guid_rc = (\<lambda>i. if i = 0 then rc0 else 0), guid_uuid = (\<lambda>i. word_of_nat (17 * i)),
      netIDMagic = 0, netIDTime = 0\<rparr>"

definition sample_mdms_reply :: "byte \<Rightarrow> 16 word \<Rightarrow> ioctlQueryMDMs" where
  "sample_mdms_reply rc0 n =
     \<lparr>mdms_rc = (\<lambda>i. if i = 0 then rc0 else 0), numMdms = n, mdms_filler = (\<lambda>_. 0),
      mdms = (\<lambda>i. zero_ioctlMdmInfo\<lparr>mdmIDL := word_of_nat i, mdmIDH := 0x1a2b, sdcIDL := 7, sdcIDH := 0xdeadbeef\<rparr>)\<rparr>"

definition sample_device :: "byte \<Rightarrow> 16 word \<Rightarrow> 64 word \<Rightarrow> device" where
  "sample_device rc0 n r =
     \<lparr>open_error = None,
      ioctl_guid = (\<lambda>op b. if op = 0x610E then (0, sample_guid_reply rc0) else (25, b)),
      ioctl_mdms = (\<lambda>op b. if op = 0x610C then (0, sample_mdms_reply rc0 n) else (25, b)),
      ioctl_rescan = (\<lambda>op b. if op = 0x610A then (0, r) else (25, b))\<rparr>"

definition missing_device :: device where
  "missing_device = (sample_device 65 1 0)\<lparr>open_error := Some (PathError IOCTLDevice 2)\<rparr>"

text \<open>The cluster the decoding loop builds from record \<open>k\<close> of the buffer.\<close>

definition cluster_of :: "ioctlQueryMDMs \<Rightarrow> nat \<Rightarrow> ConfiguredCluster" where
  "cluster_of buf k =
     \<lparr>SystemID = Sprintf_8_8x (mdmIDH (mdms buf k)) @ Sprintf_8_8x (mdmIDL (mdms buf k)),
      SdcID = Sprintf_8_8x (sdcIDH (mdms buf k)) @ Sprintf_8_8x (sdcIDL (mdms buf k))\<rparr>"

text \<open>The GUID the GUID query decodes from the 16 identifier bytes of the buffer.\<close>

definition guid_of :: "ioctlGUID \<Rightarrow> string" where
  "guid_of buf =
     ToUpper (uuid_String (fst (uuid_Parse (EncodeToString (map (guid_uuid buf) [0..<16])))))"

section \<open>The REST session layer\<close>

subsection \<open>Library functions on strings\<close>

text \<open>
  A Go string is a sequence of bytes, a \<open>char\<close> each. \<^verbatim>\<open>strings.TrimSpace\<close> removes the
  leading and trailing Unicode white space, \<^verbatim>\<open>unicode.IsSpace\<close>: the six ASCII characters
  and U+0085, U+00A0, U+1680, U+2000 to U+200A, U+2028, U+2029, U+202F, U+205F, U+3000,
  here by their UTF-8 encodings. A rune is decoded from the front of the text, or from
  its end backwards to the nearest leading byte, so a white-space rune is a prefix, or
  a suffix, that is one of these encodings.
\<close>

definition unicode_spaces :: "string list" where
  "unicode_spaces =
     [[CHR 0x09], [CHR 0x0A], [CHR 0x0B], [CHR 0x0C], [CHR 0x0D], [CHR 0x20],
      [CHR 0xC2, CHR 0x85], [CHR 0xC2, CHR 0xA0], [CHR 0xE1, CHR 0x9A, CHR 0x80],
      [CHR 0xE2, CHR 0x80, CHR 0x80], [CHR 0xE2, CHR 0x80, CHR 0x81],
      [CHR 0xE2, CHR 0x80, CHR 0x82], [CHR 0xE2, CHR 0x80, CHR 0x83],
      [CHR 0xE2, CHR 0x80, CHR 0x84], [CHR 0xE2, CHR 0x80, CHR 0x85],
      [CHR 0xE2, CHR 0x80, CHR 0x86], [CHR 0xE2, CHR 0x80, CHR 0x87],
      [CHR 0xE2, CHR 0x80, CHR 0x88], [CHR 0xE2, CHR 0x80, CHR 0x89],
      [CHR 0xE2, CHR 0x80, CHR 0x8A], [CHR 0xE2, CHR 0x80, CHR 0xA8],
      [CHR 0xE2, CHR 0x80, CHR 0xA9], [CHR 0xE2, CHR 0x80, CHR 0xAF],
      [CHR 0xE2, CHR 0x81, CHR 0x9F], [CHR 0xE3, CHR 0x80, CHR 0x80]]"

function trim_prefixes :: "string list \<Rightarrow> string \<Rightarrow> string" where
  "trim_prefixes pats s =
     (case filter (\<lambda>p. p \<noteq> [] \<and> take (length p) s = p) pats of
        [] \<Rightarrow> s
      | p # _ \<Rightarrow> trim_prefixes pats (drop (length p) s))"
  by pat_completeness auto
termination
proof (relation "measure (\<lambda>(pats, s). length s)")
  show "wf (measure (\<lambda>(pats, s). length s))"
    by simp
next
  fix pats :: "string list" and s p :: string and ps :: "string list"
  assume "filter (\<lambda>p. p \<noteq> [] \<and> take (length p) s = p) pats = p # ps"
  then have "p \<in> set (filter (\<lambda>p. p \<noteq> [] \<and> take (length p) s = p) pats)"
    by simp
  then have ne: "p \<noteq> []" and pre: "take (length p) s = p"
    by auto
  from pre have "length (take (length p) s) = length p"
    by (rule arg_cong)
  with ne have "length s - length p < length s"
    by (cases p) simp_all
  then show "((pats, drop (length p) s), (pats, s)) \<in> measure (\<lambda>(pats, s). length s)"
    by simp
qed

declare trim_prefixes.simps [simp del]

definition TrimSpace :: "string \<Rightarrow> string" where
  "TrimSpace s = rev (trim_prefixes (map rev unicode_spaces) (rev (trim_prefixes unicode_spaces s)))"

text \<open>\<^verbatim>\<open>strings.TrimLeft(s, `"`)\<close> and \<^verbatim>\<open>strings.TrimRight(s, `"`)\<close>: the cutset is one ASCII character.\<close>

definition TrimLeft :: "string \<Rightarrow> char \<Rightarrow> string" where
  "TrimLeft s q = dropWhile (\<lambda>c. c = q) s"

definition TrimRight :: "string \<Rightarrow> char \<Rightarrow> string" where
  "TrimRight s q = rev (dropWhile (\<lambda>c. c = q) (rev s))"

text \<open>\<^verbatim>\<open>base64.StdEncoding.EncodeToString\<close>, with padding, on the bytes of a string.\<close>

definition encodeStd :: string where
  "encodeStd = ''ABCDEFGHIJKLMNOPQRSTUVWXYZabcdefghijklmnopqrstuvwxyz0123456789+/''"

fun base64_EncodeToString :: "string \<Rightarrow> string" where
  "base64_EncodeToString (a # b # c # rest) =
     (let v = (of_char a :: int) * 65536 + of_char b * 256 + of_char c
      in [encodeStd ! nat (v div 262144), encodeStd ! nat (v div 4096 mod 64),
          encodeStd ! nat (v div 64 mod 64), encodeStd ! nat (v mod 64)]
         @ base64_EncodeToString rest)"
| "base64_EncodeToString [a, b] =
     (let v = (of_char a :: int) * 65536 + of_char b * 256
      in [encodeStd ! nat (v div 262144), encodeStd ! nat (v div 4096 mod 64),
          encodeStd ! nat (v div 64 mod 64), CHR ''=''])"
| "base64_EncodeToString [a] =
     (let v = (of_char a :: int) * 65536
      in [encodeStd ! nat (v div 262144), encodeStd ! nat (v div 4096 mod 64),
          CHR ''='', CHR ''=''])"
| "base64_EncodeToString [] = []"

subsection \<open>Regular expressions\<close>

text \<open>
  The fragment of Go's \<^verbatim>\<open>regexp\<close> that the version pattern uses, as a program of
  instructions: the assertions \<^verbatim>\<open>^\<close> and \<^verbatim>\<open>$\<close> (begin and end of the text, no flags), a
  capture boundary \<open>Save k\<close> storing the position in slot \<open>k\<close>, one character of a class,
  and the repetition \<^verbatim>\<open>c*\<close> of a class, greedy (\<open>True\<close>) or lazy (\<^verbatim>\<open>c*?\<close>, \<open>False\<close>);
  \<^verbatim>\<open>c+\<close> is \<^verbatim>\<open>cc*\<close> and \<^verbatim>\<open>c+?\<close> is \<^verbatim>\<open>cc*?\<close>. Go finds the leftmost match and, among those,
  the one a backtracking search prefers (leftmost-first): a greedy repetition tries one
  more character before it tries to go on, a lazy one tries to go on first. \<open>run\<close> is
  that search from position \<open>pos\<close>, with \<open>s\<close> the text from there on.
\<close>

datatype inst = AssertBegin | AssertEnd | Save nat | One "char \<Rightarrow> bool" | Rep "char \<Rightarrow> bool" bool

fun run :: "inst list \<Rightarrow> nat \<Rightarrow> string \<Rightarrow> (nat \<times> nat) list \<Rightarrow> (nat \<times> (nat \<times> nat) list) option" where
  "run [] pos s caps = Some (pos, caps)"
| "run (AssertBegin # p) pos s caps = (if pos = 0 then run p pos s caps else None)"
| "run (AssertEnd # p) pos s caps = (if s = [] then run p pos s caps else None)"
| "run (Save k # p) pos s caps = run p pos s (AList.update k pos caps)"
| "run (One cl # p) pos [] caps = None"
| "run (One cl # p) pos (c # cs) caps = (if cl c then run p (Suc pos) cs caps else None)"
| "run (Rep cl True # p) pos [] caps = run p pos [] caps"
| "run (Rep cl True # p) pos (c # cs) caps =
     (if cl c then
        (case run (Rep cl True # p) (Suc pos) cs caps of
           Some r \<Rightarrow> Some r
         | None \<Rightarrow> run p pos (c # cs) caps)
      else run p pos (c # cs) caps)"
| "run (Rep cl False # p) pos [] caps = run p pos [] caps"
| "run (Rep cl False # p) pos (c # cs) caps =
     (case run p pos (c # cs) caps of
        Some r \<Rightarrow> Some r
      | None \<Rightarrow> if cl c then run (Rep cl False # p) (Suc pos) cs caps else None)"

text \<open>The leftmost match: the search is tried from position 0, then 1, and so on.\<close>

fun search :: "inst list \<Rightarrow> nat \<Rightarrow> string \<Rightarrow> (nat \<times> nat) list option" where
  "search prog pos s =
     (case run prog pos s [(0, pos)] of
        Some (e, caps) \<Rightarrow> Some (AList.update 1 e caps)
      | None \<Rightarrow> (case s of [] \<Rightarrow> None | c # cs \<Rightarrow> search prog (Suc pos) cs))"

declare search.simps [simp del]

text \<open>
  \<^verbatim>\<open>FindStringSubmatch\<close>: nil (the empty list) when there is no match, otherwise the text
  of the match followed by the text of each group (empty for a group that took no part).
\<close>

definition NumSubexp :: "inst list \<Rightarrow> nat" where
  "NumSubexp prog = length (filter (\<lambda>i. case i of Save k \<Rightarrow> True | _ \<Rightarrow> False) prog) div 2"

definition FindStringSubmatch :: "inst list \<Rightarrow> string \<Rightarrow> string list" where
  "FindStringSubmatch prog text =
     (case search prog 0 text of
        None \<Rightarrow> []
      | Some caps \<Rightarrow>
          map (\<lambda>g. case (map_of caps (2 * g), map_of caps (2 * g + 1)) of
                     (Some a, Some b) \<Rightarrow> take (b - a) (drop a text)
                   | _ \<Rightarrow> [])
            [0..<Suc (NumSubexp prog)])"

definition is_digit :: "char \<Rightarrow> bool" where  \<comment> \<open>\<^verbatim>\<open>\d\<close>\<close>
  "is_digit c = (48 \<le> (of_char c :: nat) \<and> (of_char c :: nat) \<le> 57)"

definition is_dot :: "char \<Rightarrow> bool" where  \<comment> \<open>\<^verbatim>\<open>\.\<close>\<close>
  "is_dot c = (c = CHR ''.'')"

definition not_newline :: "char \<Rightarrow> bool" where  \<comment> \<open>\<^verbatim>\<open>.\<close>\<close>
  "not_newline c = (c \<noteq> CHR 0x0A)"

text \<open>The pattern of \<^verbatim>\<open>getVersion\<close>, \<^verbatim>\<open>^(\d+?\.\d+?).*$\<close>.\<close>

definition versionRX :: "inst list" where
  "versionRX =
     [AssertBegin, Save 2, One is_digit, Rep is_digit False, One is_dot,
      One is_digit, Rep is_digit False, Save 3, Rep not_newline True, AssertEnd]"

subsection \<open>The client, the api client behind it and the server\<close>

record ConfigConnect =
  Endpoint :: string
  Version :: string
  Username :: string
  Password :: string

record http_response =
  StatusCode :: int
  Body :: "string option"  \<comment> \<open>\<open>None\<close>: reading the body fails\<close>

text \<open>
  What \<^verbatim>\<open>DoAndGetResponseBody\<close> gives back, the pair \<^verbatim>\<open>(resp, err)\<close>: a non-nil error, or a
  response pointer, which may be nil.
\<close>

datatype reply = Failed go_error | Response "http_response option"

text \<open>
  What \<^verbatim>\<open>DoWithHeaders\<close> gives back: nil after decoding the answer into the caller's result,
  or an error.
\<close>

datatype 'v json_reply = Decoded 'v | Refused go_error

text \<open>The request bodies the modelled facades pass as \<^verbatim>\<open>body interface{}\<close>.\<close>

datatype body = ChangeSdcNameParam string | ProtectionDomainParam string | EmptyPayload

type_synonym headers = "(string \<times> string) list"

datatype api_method = ApiDoWithHeaders | ApiDoAndGetResponseBody

record api_call =
  call_method :: api_method
  http_method :: string
  call_path :: string
  call_headers :: headers
  call_body :: "body option"
  call_token :: string  \<comment> \<open>the token the api client holds when the request is sent\<close>

text \<open>
  The state the session layer works on: the \<^verbatim>\<open>Client\<close> with its \<^verbatim>\<open>configConnect\<close>, the token
  held by its api client, the package variables \<^verbatim>\<open>accHeader\<close> and \<^verbatim>\<open>conHeader\<close>, and the
  requests sent through the api client so far, oldest first.
\<close>

record client =
  configConnect :: ConfigConnect
  api_token :: string
  accHeader :: string
  conHeader :: string
  calls :: "api_call list"

text \<open>
  Modelled from the spec: package \<^verbatim>\<open>types\<close> is not under src/. Each of its types is a
  record of the fields the source reads; a field of type \<^verbatim>\<open>[]*T\<close> is a list of pointers,
  each of which may be nil.
\<close>

record Link =
  Rel :: string
  HREF :: string

record types_Sdc =
  Sdc_ID :: string
  Sdc_Name :: string

record types_ProtectionDomain =
  PD_ID :: string
  PD_Name :: string
  PD_Links :: "Link option list"

record types_System =
  System_ID :: string
  System_Links :: "Link option list"

text \<open>
  Modelled from the spec: package \<^verbatim>\<open>api\<close>, with the \<^verbatim>\<open>api.Client\<close> behind \<^verbatim>\<open>c.api\<close>, is not
  under src/. The server it talks to is any sequence of answers: \<open>body_reply srv n\<close> is
  what \<^verbatim>\<open>DoAndGetResponseBody\<close> gives back when it is the request number \<open>n\<close> of the client,
  and \<open>sdc_reply\<close>, \<open>pd_reply\<close> and \<open>pds_reply\<close>, one for each result shape, are what
  \<^verbatim>\<open>DoWithHeaders\<close> gives back. \<^verbatim>\<open>ParseJSONError\<close> turns a non-2xx response into an error,
  structured or generic, never nil. \<open>MetaData\<close> is the header set of a request body
  whose type has a \<^verbatim>\<open>MetaData()\<close> method, as the pairs of a key and of what \<^verbatim>\<open>Get\<close> returns
  for it; \<open>None\<close> for a type without the method.
\<close>

record server =
  body_reply :: "nat \<Rightarrow> reply"
  sdc_reply :: "nat \<Rightarrow> types_Sdc json_reply"
  pd_reply :: "nat \<Rightarrow> types_ProtectionDomain json_reply"
  pds_reply :: "nat \<Rightarrow> types_ProtectionDomain option list json_reply"
  ParseJSONError :: "http_response \<Rightarrow> go_error"
  MetaData :: "body \<Rightarrow> headers option"

text \<open>
  Modelled from the spec: the constants \<^verbatim>\<open>api.HeaderKeyAccept\<close>, \<^verbatim>\<open>api.HeaderKeyContentType\<close>
  and \<^verbatim>\<open>api.HeaderValContentTypeJSON\<close> are not under src/; section 6 of the spec names the
  headers \<^verbatim>\<open>Accept\<close> and \<^verbatim>\<open>Content-Type\<close> and the value \<^verbatim>\<open>application/json\<close>.
\<close>

definition HeaderKeyAccept :: string where
  "HeaderKeyAccept = ''Accept''"

definition HeaderKeyContentType :: string where
  "HeaderKeyContentType = ''Content-Type''"

definition HeaderValContentTypeJSON :: string where
  "HeaderValContentTypeJSON = ''application/json''"

text \<open>
  Modelled from the spec: \<^verbatim>\<open>SetToken\<close> and \<^verbatim>\<open>GetToken\<close> of the api client are not under src/;
  the api client holds the one current token.
\<close>

definition SetToken :: "string \<Rightarrow> client \<Rightarrow> client" where
  "SetToken token c = c\<lparr>api_token := token\<rparr>"

definition GetToken :: "client \<Rightarrow> string" where
  "GetToken c = api_token c"

text \<open>The api client sends a request: it is recorded with the token it bears.\<close>

definition record_call ::
  "api_method \<Rightarrow> string \<Rightarrow> string \<Rightarrow> headers \<Rightarrow> body option \<Rightarrow> client \<Rightarrow> client" where
  "record_call m method uri hs b c =
     c\<lparr>calls := calls c @
        [\<lparr>call_method = m, http_method = method, call_path = uri, call_headers = hs,
          call_body = b, call_token = api_token c\<rparr>]\<rparr>"

text \<open>
  Modelled from the spec: \<^verbatim>\<open>DoAndGetResponseBody\<close> of the api client is not under src/; it
  sends the request and gives back the server's answer or a transport error.
\<close>

definition DoAndGetResponseBody ::
  "server \<Rightarrow> string \<Rightarrow> string \<Rightarrow> headers \<Rightarrow> body option \<Rightarrow> client \<Rightarrow> reply \<times> client" where
  "DoAndGetResponseBody srv method uri hs b c =
     (body_reply srv (length (calls c)), record_call ApiDoAndGetResponseBody method uri hs b c)"

text \<open>
  Modelled from the spec: \<^verbatim>\<open>DoWithHeaders\<close> of the api client is not under src/; it sends the
  request, and a non-2xx status is parsed into a structured error and returned, a 2xx
  answer is decoded into the caller's result. On an error the caller's result is left
  as it was.
\<close>

definition DoWithHeaders ::
  "(nat \<Rightarrow> 'v json_reply) \<Rightarrow> string \<Rightarrow> string \<Rightarrow> headers \<Rightarrow> body option \<Rightarrow> client
     \<Rightarrow> 'v json_reply \<times> client" where
  "DoWithHeaders json_reply method uri hs b c =
     (json_reply (length (calls c)), record_call ApiDoWithHeaders method uri hs b c)"

subsection \<open>api.go\<close>

definition errNilReponse :: go_error where
  "errNilReponse = ErrorString ''nil response from API''"

definition errBodyRead :: go_error where
  "errBodyRead = ErrorString ''error reading body''"

definition errNoLink :: go_error where
  "errNoLink = ErrorString ''Error: problem finding link''"

definition MethodGet :: string where
  "MethodGet = ''GET''"

definition MethodPost :: string where
  "MethodPost = ''POST''"

text \<open>\<^verbatim>\<open>extractString\<close>: the body, without the white space and the quotes around it.\<close>

definition extractString :: "http_response \<Rightarrow> string outcome" where
  "extractString resp =
     (case Body resp of
        None \<Rightarrow> Fails errBodyRead
      | Some bs \<Rightarrow>
          let s = bs;
              s = TrimSpace s;
              s = TrimLeft s CHR 0x22;
              s = TrimRight s CHR 0x22
          in Returns s)"

text \<open>
  \<^verbatim>\<open>getVersion\<close>. The statement \<^verbatim>\<open>defer resp.Body.Close()\<close> stands before the test
  \<^verbatim>\<open>resp == nil\<close> and evaluates \<^verbatim>\<open>resp.Body\<close>: on a nil response it panics, and the case
  that returns \<^verbatim>\<open>errNilReponse\<close> is never reached.
\<close>

definition getVersion :: "server \<Rightarrow> client \<Rightarrow> string outcome \<times> client" where
  "getVersion srv c =
     (case DoAndGetResponseBody srv MethodGet ''/api/version'' [] None c of
        (Failed err, c1) \<Rightarrow> (Fails err, c1)
      | (Response None, c1) \<Rightarrow> (Panics ''nil pointer dereference'', c1)
      | (Response (Some resp), c1) \<Rightarrow>
          if \<not> (StatusCode resp \<ge> 200 \<and> StatusCode resp \<le> 299)
          then (Fails (ParseJSONError srv resp), c1)
          else
            (case extractString resp of
               Fails err \<Rightarrow> (Fails err, c1)
             | Panics p \<Rightarrow> (Panics p, c1)
             | Returns version \<Rightarrow>
                 let m = FindStringSubmatch versionRX version
                 in if length m > 0 then (Returns (m ! 1), c1) else (Returns version, c1)))"

definition updateHeaders :: "string \<Rightarrow> client \<Rightarrow> client" where
  "updateHeaders version c =
     (let acc = HeaderValContentTypeJSON;
          acc = (if version \<noteq> [] then acc @ '';version='' @ version else acc)
      in c\<lparr>accHeader := acc, conHeader := acc\<rparr>)"

definition updateVersion :: "server \<Rightarrow> client \<Rightarrow> unit outcome \<times> client" where
  "updateVersion srv c =
     (case getVersion srv c of
        (Fails err, c1) \<Rightarrow> (Fails err, c1)
      | (Panics p, c1) \<Rightarrow> (Panics p, c1)
      | (Returns version, c1) \<Rightarrow>
          (Returns (),
           updateHeaders version (c1\<lparr>configConnect := (configConnect c1)\<lparr>Version := version\<rparr>\<rparr>)))"

definition basicAuth :: "string \<Rightarrow> string \<Rightarrow> string" where
  "basicAuth username password =
     (let auth = username @ '':'' @ password in base64_EncodeToString auth)"

text \<open>
  \<^verbatim>\<open>Authenticate\<close>. The result \<^verbatim>\<open>Cluster{}\<close> is the unit value. When \<^verbatim>\<open>extractString\<close> fails
  the source returns \<^verbatim>\<open>Cluster{}, nil\<close>.
\<close>

definition Authenticate :: "server \<Rightarrow> ConfigConnect \<Rightarrow> client \<Rightarrow> unit outcome \<times> client" where
  "Authenticate srv cfg c =
     (let cfg = cfg\<lparr>Version := Version (configConnect c)\<rparr>;
          c = c\<lparr>configConnect := cfg\<rparr>;
          c = SetToken [] c;
          hs = AList.update ''Authorization''
                 (''Basic '' @ basicAuth (Username cfg) (Password cfg)) []
      in case DoAndGetResponseBody srv MethodGet ''api/login'' hs None c of
           (Failed err, c1) \<Rightarrow> (Fails err, c1)
         | (Response None, c1) \<Rightarrow> (Panics ''nil pointer dereference'', c1)
         | (Response (Some resp), c1) \<Rightarrow>
             if \<not> (StatusCode resp \<ge> 200 \<and> StatusCode resp \<le> 299)
             then (Fails (ParseJSONError srv resp), c1)
             else
               (case extractString resp of
                  Fails err \<Rightarrow> (Returns (), c1)
                | Panics p \<Rightarrow> (Panics p, c1)
                | Returns token \<Rightarrow>
                    let c2 = SetToken token c1
                    in if Version (configConnect c2) = []
                       then (case updateVersion srv c2 of
                               (Fails err, c3) \<Rightarrow>
                                 (Fails (ErrorString ''error getting version of ScaleIO''), c3)
                             | (Panics p, c3) \<Rightarrow> (Panics p, c3)
                             | (Returns u, c3) \<Rightarrow> (Returns (), c3))
                       else (Returns (), c2)))"

text \<open>\<^verbatim>\<open>addMetaData\<close>: the headers of a body that has them are added to the map.\<close>

definition addMetaData :: "server \<Rightarrow> headers \<Rightarrow> body option \<Rightarrow> headers" where
  "addMetaData srv hs b =
     (case b of
        None \<Rightarrow> hs
      | Some bd \<Rightarrow>
          (case MetaData srv bd of
             None \<Rightarrow> hs
           | Some md \<Rightarrow> fold (\<lambda>(k, v) h. AList.update k v h) md hs))"

text \<open>
  The header map both dispatchers build first: \<^verbatim>\<open>Accept\<close> and \<^verbatim>\<open>Content-Type\<close> from the
  package variables, then the headers of the body.
\<close>

definition request_headers :: "server \<Rightarrow> body option \<Rightarrow> client \<Rightarrow> headers" where
  "request_headers srv b c =
     addMetaData srv
       (AList.update HeaderKeyContentType (conHeader c)
          (AList.update HeaderKeyAccept (accHeader c) [])) b"

text \<open>
  \<^verbatim>\<open>getJSONWithRetry\<close>. The value returned is what the call decoded into \<^verbatim>\<open>resp\<close>; on an
  error \<^verbatim>\<open>resp\<close> is as the caller passed it.
\<close>

definition getJSONWithRetry ::
  "server \<Rightarrow> (nat \<Rightarrow> 'v json_reply) \<Rightarrow> string \<Rightarrow> string \<Rightarrow> body option \<Rightarrow> client
     \<Rightarrow> 'v outcome \<times> client" where
  "getJSONWithRetry srv json_reply method uri b c =
     (let hs = request_headers srv b c
      in case DoWithHeaders json_reply method uri hs b c of
           (Decoded v, c1) \<Rightarrow> (Returns v, c1)
         | (Refused err, c1) \<Rightarrow>
             (case err of
                TypesError code msg \<Rightarrow>
                  if code = 401 then
                    (case Authenticate srv (configConnect c1) c1 of
                       (Fails e, c2) \<Rightarrow> (Fails (Errorf ''Error Authenticating: '' e), c2)
                     | (Panics p, c2) \<Rightarrow> (Panics p, c2)
                     | (Returns u, c2) \<Rightarrow>
                         (case DoWithHeaders json_reply method uri hs b c2 of
                            (Decoded v, c3) \<Rightarrow> (Returns v, c3)
                          | (Refused err2, c3) \<Rightarrow> (Fails err2, c3)))
                  else (Fails err, c1)
              | _ \<Rightarrow> (Fails err, c1)))"

text \<open>
  The closure \<^verbatim>\<open>checkResponse\<close> of \<^verbatim>\<open>getStringWithRetry\<close>: the string, whether to retry, and
  the error. Its \<^verbatim>\<open>defer resp.Body.Close()\<close> panics on a nil response.
\<close>

definition checkResponse ::
  "server \<Rightarrow> http_response option \<Rightarrow> (string \<times> bool \<times> go_error option) outcome" where
  "checkResponse srv r =
     (case r of
        None \<Rightarrow> Panics ''nil pointer dereference''
      | Some resp \<Rightarrow>
          if StatusCode resp = 401 then Returns ([], True, Some (ParseJSONError srv resp))
          else if \<not> (StatusCode resp \<ge> 200 \<and> StatusCode resp \<le> 299)
          then Returns ([], False, Some (ParseJSONError srv resp))
          else
            (case extractString resp of
               Fails err \<Rightarrow> Returns ([], False, Some err)
             | Panics p \<Rightarrow> Panics p
             | Returns s \<Rightarrow> Returns (s, False, None)))"

text \<open>
  \<^verbatim>\<open>getStringWithRetry\<close>. After the retry the source assigns the error of the second
  \<^verbatim>\<open>checkResponse\<close> to \<^verbatim>\<open>err\<close> and then returns \<^verbatim>\<open>s, nil\<close>.
\<close>

definition getStringWithRetry ::
  "server \<Rightarrow> string \<Rightarrow> string \<Rightarrow> body option \<Rightarrow> client \<Rightarrow> string outcome \<times> client" where
  "getStringWithRetry srv method uri b c =
     (let hs = request_headers srv b c
      in case DoAndGetResponseBody srv method uri hs b c of
           (Failed err, c1) \<Rightarrow> (Fails err, c1)
         | (Response resp, c1) \<Rightarrow>
             (case checkResponse srv resp of
                Fails e \<Rightarrow> (Fails e, c1)
              | Panics p \<Rightarrow> (Panics p, c1)
              | Returns (s, retry, httpErr) \<Rightarrow>
                  (case httpErr of
                     None \<Rightarrow> (Returns s, c1)
                   | Some herr \<Rightarrow>
                       if retry then
                         (case Authenticate srv (configConnect c1) c1 of
                            (Fails e, c2) \<Rightarrow> (Fails (Errorf ''Error Authenticating: '' e), c2)
                          | (Panics p, c2) \<Rightarrow> (Panics p, c2)
                          | (Returns u, c2) \<Rightarrow>
                              (case DoAndGetResponseBody srv method uri hs b c2 of
                                 (Failed err, c3) \<Rightarrow> (Fails err, c3)
                               | (Response resp2, c3) \<Rightarrow>
                                   (case checkResponse srv resp2 of
                                      Fails e \<Rightarrow> (Fails e, c3)
                                    | Panics p \<Rightarrow> (Panics p, c3)
                                    | Returns (s2, retry2, err2) \<Rightarrow> (Returns s2, c3))))
                       else (Fails herr, c1))))"

subsection \<open>The facades over the dispatcher\<close>

text \<open>
  A \<^verbatim>\<open>*Client\<close> is kept as a reference; the state of the one client is passed
  explicitly. The telemetry hook \<^verbatim>\<open>TimeSpent\<close> and the logging do not change a result
  and are left out.
\<close>

type_synonym client_ref = nat

record System =
  System :: types_System
  sys_client :: client_ref

record Sdc =
  Sdc :: types_Sdc
  sdc_client :: client_ref

definition zero_Sdc :: types_Sdc where
  "zero_Sdc = \<lparr>Sdc_ID = [], Sdc_Name = []\<rparr>"

definition zero_ProtectionDomain :: types_ProtectionDomain where
  "zero_ProtectionDomain = \<lparr>PD_ID = [], PD_Name = [], PD_Links = []\<rparr>"

definition NewSdc :: "client_ref \<Rightarrow> types_Sdc \<Rightarrow> Sdc" where
  "NewSdc cl sdc = \<lparr>Sdc = sdc, sdc_client = cl\<rparr>"

fun GetLink :: "Link option list \<Rightarrow> string \<Rightarrow> Link outcome" where
  "GetLink [] rel = Fails errNoLink"
| "GetLink (None # links) rel = Panics ''nil pointer dereference''"
| "GetLink (Some link # links) rel = (if Rel link = rel then Returns link else GetLink links rel)"

definition GetSdcById :: "server \<Rightarrow> System \<Rightarrow> string \<Rightarrow> client \<Rightarrow> Sdc outcome \<times> client" where
  "GetSdcById srv s ident c =
     (let path = ''api/instances/Sdc::'' @ ident;
          sdc = zero_Sdc
      in case getJSONWithRetry srv (sdc_reply srv) MethodGet path None c of
           (Fails err, c1) \<Rightarrow> (Returns (NewSdc (sys_client s) sdc), c1)
         | (Panics p, c1) \<Rightarrow> (Panics p, c1)
         | (Returns sdc', c1) \<Rightarrow> (Returns (NewSdc (sys_client s) sdc'), c1))"

definition ChangeSdcName ::
  "server \<Rightarrow> System \<Rightarrow> string \<Rightarrow> string \<Rightarrow> client \<Rightarrow> Sdc outcome \<times> client" where
  "ChangeSdcName srv s idOfSdc name c =
     (let path = ''/api/instances/Sdc::'' @ idOfSdc @ ''/action/setSdcName'';
          sdc = zero_Sdc;
          b = ChangeSdcNameParam name
      in case getJSONWithRetry srv (sdc_reply srv) MethodPost path (Some b) c of
           (Fails err, c1) \<Rightarrow> (Returns (NewSdc (sys_client s) sdc), c1)
         | (Panics p, c1) \<Rightarrow> (Panics p, c1)
         | (Returns sdc', c1) \<Rightarrow> (Returns (NewSdc (sys_client s) sdc'), c1))"

definition GetProtectionDomain ::
  "server \<Rightarrow> System \<Rightarrow> string \<Rightarrow> client
     \<Rightarrow> types_ProtectionDomain option list outcome \<times> client" where
  "GetProtectionDomain srv s pdhref c =
     (if pdhref = [] then
        (case GetLink (System_Links (System s)) ''/api/System/relationship/ProtectionDomain'' of
           Fails err \<Rightarrow> (Fails err, c)
         | Panics p \<Rightarrow> (Panics p, c)
         | Returns link \<Rightarrow>
             (case getJSONWithRetry srv (pds_reply srv) MethodGet (HREF link) None c of
                (Fails err, c1) \<Rightarrow> (Fails err, c1)
              | (Panics p, c1) \<Rightarrow> (Panics p, c1)
              | (Returns pds, c1) \<Rightarrow> (Returns pds, c1)))
      else
        (case getJSONWithRetry srv (pd_reply srv) MethodGet pdhref None c of
           (Fails err, c1) \<Rightarrow> (Fails err, c1)
         | (Panics p, c1) \<Rightarrow> (Panics p, c1)
         | (Returns pd, c1) \<Rightarrow> (Returns ([] @ [Some pd]), c1)))"

text \<open>The loop of \<^verbatim>\<open>FindProtectionDomain\<close> over the pointers of the list.\<close>

fun find_in_pds ::
  "types_ProtectionDomain option list \<Rightarrow> string \<Rightarrow> string \<Rightarrow> string
     \<Rightarrow> types_ProtectionDomain outcome" where
  "find_in_pds [] ident name href = Fails (ErrorString ''Couldn't find protection domain'')"
| "find_in_pds (None # pds) ident name href = Panics ''nil pointer dereference''"
| "find_in_pds (Some pd # pds) ident name href =
     (if PD_ID pd = ident \<or> PD_Name pd = name \<or> href \<noteq> [] then Returns pd
      else find_in_pds pds ident name href)"

definition FindProtectionDomain ::
  "server \<Rightarrow> System \<Rightarrow> string \<Rightarrow> string \<Rightarrow> string \<Rightarrow> client
     \<Rightarrow> types_ProtectionDomain outcome \<times> client" where
  "FindProtectionDomain srv s ident name href c =
     (case GetProtectionDomain srv s href c of
        (Fails err, c1) \<Rightarrow> (Fails (Errorf ''Error getting protection domains '' err), c1)
      | (Panics p, c1) \<Rightarrow> (Panics p, c1)
      | (Returns pds, c1) \<Rightarrow> (find_in_pds pds ident name href, c1))"

subsection \<open>The version pattern, read two ways\<close>

text \<open>
  The pattern as the spec writes it, \<^verbatim>\<open>^(\d+\.\d+).*$\<close>, with greedy repetitions, to be
  compared with \<open>versionRX\<close>.
\<close>

definition spec_versionRX :: "inst list" where
  "spec_versionRX =
     [AssertBegin, Save 2, One is_digit, Rep is_digit True, One is_dot,
      One is_digit, Rep is_digit True, Save 3, Rep not_newline True, AssertEnd]"

text \<open>
  A direct reading of a version string: the leading digits \<open>major\<close>, then a dot, then
  the digits \<open>minor\<close>, then a rest without a line feed. \<open>version_shape\<close> gives the three
  parts when the string has this shape.
\<close>

definition version_shape :: "string \<Rightarrow> (string \<times> string \<times> string) option" where
  "version_shape s =
     (let major = takeWhile is_digit s
      in case dropWhile is_digit s of
           [] \<Rightarrow> None
         | d # t \<Rightarrow>
             let minor = takeWhile is_digit t; rest = dropWhile is_digit t
             in if major \<noteq> [] \<and> d = CHR ''.'' \<and> minor \<noteq> [] \<and> CHR 0x0A \<notin> set rest
                then Some (major, minor, rest) else None)"

text \<open>The same shape, as the conditions the search meets one after the other.\<close>

definition shape_ok :: "string \<Rightarrow> bool" where
  "shape_ok s =
     (let r = dropWhile is_digit s
      in takeWhile is_digit s \<noteq> [] \<and> r \<noteq> [] \<and> hd r = CHR ''.'' \<and>
         tl r \<noteq> [] \<and> is_digit (hd (tl r)) \<and> CHR 0x0A \<notin> set (tl (tl r)))"

subsection \<open>Sample servers and clients\<close>

text \<open>
  A server that answers the requests of the client from a script, by their number,
  and refuses the connection once the script is over; a response with status 200 and
  a body, and one with another status; a client created for a protocol version, with
  a stale token.
\<close>

definition scripted :: "'a \<Rightarrow> 'a list \<Rightarrow> nat \<Rightarrow> 'a" where
  "scripted dflt xs n = (if n < length xs then xs ! n else dflt)"

definition sample_server :: "reply list \<Rightarrow> types_Sdc json_reply list \<Rightarrow> server" where
  "sample_server bodies jsons =
     \<lparr>body_reply = scripted (Failed (OtherError ''connection refused'')) bodies,
      sdc_reply = scripted (Refused (OtherError ''connection refused'')) jsons,
      pd_reply = (\<lambda>n. Refused (OtherError ''connection refused'')),
      pds_reply = (\<lambda>n. Refused (OtherError ''connection refused'')),
      ParseJSONError = (\<lambda>resp. TypesError (StatusCode resp) ''error''),
      MetaData = (\<lambda>b. None)\<rparr>"

definition ok_response :: "string \<Rightarrow> reply" where
  "ok_response b = Response (Some \<lparr>StatusCode = 200, Body = Some b\<rparr>)"

definition status_response :: "int \<Rightarrow> reply" where
  "status_response st = Response (Some \<lparr>StatusCode = st, Body = Some []\<rparr>)"

definition sample_client :: "string \<Rightarrow> client" where
  "sample_client version =
     updateHeaders version
       \<lparr>configConnect =
          \<lparr>Endpoint = ''https://gateway'', Version = version, Username = ''admin'',
           Password = ''secret''\<rparr>,
        api_token = ''stale'', accHeader = [], conHeader = [], calls = []\<rparr>"

definition quoted :: "string \<Rightarrow> string" where
  "quoted s = CHR 0x22 # s @ [CHR 0x22]"

subsection \<open>Names for the steps of the session layer\<close>

text \<open>
  The client as \<^verbatim>\<open>Authenticate\<close> has it when it sends the login request: the
  configuration stored, the token cleared.
\<close>

definition login_client :: "ConfigConnect \<Rightarrow> client \<Rightarrow> client" where
  "login_client cfg c =
     SetToken [] (c\<lparr>configConnect := cfg\<lparr>Version := Version (configConnect c)\<rparr>\<rparr>)"

definition login_headers :: "ConfigConnect \<Rightarrow> headers" where
  "login_headers cfg = [(''Authorization'', ''Basic '' @ basicAuth (Username cfg) (Password cfg))]"

definition login_call :: "ConfigConnect \<Rightarrow> api_call" where
  "login_call cfg =
     \<lparr>call_method = ApiDoAndGetResponseBody, http_method = MethodGet, call_path = ''api/login'',
      call_headers = login_headers cfg, call_body = None, call_token = []\<rparr>"

text \<open>
  The answers to the version request on which \<^verbatim>\<open>getVersion\<close> returns an error: a
  transport error, a status outside 200 to 299, or a body that cannot be read.
\<close>

definition version_request_fails :: "reply \<Rightarrow> bool" where
  "version_request_fails r =
     (case r of
        Failed e \<Rightarrow> True
      | Response None \<Rightarrow> False
      | Response (Some resp) \<Rightarrow>
          (if StatusCode resp \<ge> 200 \<and> StatusCode resp \<le> 299 then Body resp = None else True))"

definition version_call :: "string \<Rightarrow> api_call" where
  "version_call token =
     \<lparr>call_method = ApiDoAndGetResponseBody, http_method = MethodGet, call_path = ''/api/version'',
      call_headers = [], call_body = None, call_token = token\<rparr>"

text \<open>The request the dispatchers send, as the api client records it.\<close>

definition request_call ::
  "api_method \<Rightarrow> server \<Rightarrow> string \<Rightarrow> string \<Rightarrow> body option \<Rightarrow> client \<Rightarrow> string \<Rightarrow> api_call" where
  "request_call k srv method uri b c token =
     \<lparr>call_method = k, http_method = method, call_path = uri,
      call_headers = request_headers srv b c, call_body = b, call_token = token\<rparr>"

definition sample_pd :: types_ProtectionDomain where
  "sample_pd = \<lparr>PD_ID = ''5a1b'', PD_Name = ''domain1'', PD_Links = []\<rparr>"

definition sample_system :: System where
  "sample_system = \<lparr>System = \<lparr>System_ID = ''77aa'', System_Links = []\<rparr>, sys_client = 1\<rparr>"

text \<open>The requests a step sends: those recorded after it that were not recorded before.\<close>

definition new_calls :: "client \<Rightarrow> client \<Rightarrow> api_call list" where
  "new_calls c c' = drop (length (calls c)) (calls c')"

section \<open>Properties of the driver query channel\<close>

subsection \<open>Op-codes\<close>

lemma IO_packing: "IO t nr = push_bit 30 0 OR push_bit 8 t OR nr"
  by (simp add: IO_def IOC_def)

lemma opcode_values:
  "IO IOCTLBase IOCTLQueryGUID = 0x610E"
  "IO IOCTLBase IOCTLQueryMDM = 0x610C"
  "IO IOCTLBase IOCTLRescan = 0x610A"
  by (simp_all add: IO_def IOC_def IOCTLBase_def IOCTLQueryGUID_def IOCTLQueryMDM_def
      IOCTLRescan_def)

subsection \<open>The return-code byte\<close>

lemma digit_val_hextable:
  assumes "n < 16"
  shows "digit_val (hextable ! n) = Some (int n)"
proof -
  from assms have "n \<in> {0,1,2,3,4,5,6,7,8,9,10,11,12,13,14,15}" by (simp; arith)
  then show ?thesis
    by (auto simp: hextable_def digit_val_def)
qed

lemma hi_nibble_val: "unat (drop_bit 4 (b :: byte)) = unat b div 16"
  by (simp add: drop_bit_eq_div unat_div)

lemma hi_nibble: "unat (drop_bit 4 (b :: byte)) < 16"
proof -
  have "unat b < 256"
    using unsigned_less [of b] by simp
  then show ?thesis by (simp add: hi_nibble_val)
qed

lemma lo_nibble: "unat ((b :: byte) AND 0x0f) = unat b mod 16"
proof -
  have "b AND 0x0f = take_bit 4 b"
    by (simp add: take_bit_eq_mask mask_eq_exp_minus_1)
  then show ?thesis
    by (simp add: unsigned_take_bit_eq take_bit_eq_mod unat_mod)
qed

text \<open>Hex-encoding one byte and parsing the two digits in base 16 gives the byte back.\<close>

lemma ParseInt_EncodeToString_byte:
  "ParseInt (EncodeToString [b]) 16 = (uint b, None)"
proof -
  let ?h = "unat (drop_bit 4 b)" and ?l = "unat (b AND 0x0f)"
  have h: "?h < 16" by (rule hi_nibble)
  have l: "?l < 16" by (simp add: lo_nibble)
  have enc: "EncodeToString [b] = [hextable ! ?h, hextable ! ?l]"
    by (simp add: EncodeToString_def)
  have val: "16 * int ?h + int ?l = uint b"
  proof -
    have "16 * int (unat b div 16) + int (unat b mod 16) = int (unat b)"
      by (simp add: zdiv_int zmod_int)
    also have "\<dots> = uint b"
      by simp
    finally show ?thesis
      by (simp only: hi_nibble_val lo_nibble)
  qed
  have small: "uint b < 256"
    using unsigned_less [of b] by simp
  have dh: "digit_val (hextable ! ?h) = Some (int ?h)"
    by (rule digit_val_hextable [OF h])
  have dl: "digit_val (hextable ! ?l) = Some (int ?l)"
    by (rule digit_val_hextable [OF l])
  have nosign: "hextable ! ?h \<noteq> CHR ''-''" "hextable ! ?h \<noteq> CHR ''+''"
    using dh by (auto simp: digit_val_def)
  have h': "int ?h < 16" and l': "int ?l < 16"
    using h l by linarith+
  have pu: "ParseUint [hextable ! ?h, hextable ! ?l] 16 = (uint b, None)"
    using h' l' small val by (simp add: ParseUint_def dh dl del: of_nat_unat)
  show ?thesis
    using small nosign by (simp add: enc ParseInt_def pu)
qed

lemma rc_of_byte: "fst (ParseInt (EncodeToString (map rc [0..<1])) 16) = uint (rc 0 :: byte)"
  by (simp add: ParseInt_EncodeToString_byte)

lemma uint_65: "(uint (b :: byte) = 65) = (b = 65)"
  by (simp add: word_uint_eq_iff)

subsection \<open>Formatting numbers\<close>

lemma hex_digits_length:
  "0 < k \<Longrightarrow> n < 16 ^ k \<Longrightarrow> length (hex_digits n) \<le> k"
proof (induction k arbitrary: n)
  case 0
  then show ?case by simp
next
  case (Suc k)
  show ?case
  proof (cases "n < 16")
    case True
    then show ?thesis by (subst hex_digits.simps) simp
  next
    case False
    then have k: "0 < k" using Suc.prems(2) by (cases k) simp_all
    from Suc.prems(2) have "n div 16 < 16 ^ k" by simp
    from Suc.IH [OF k this] False show ?thesis
      by (subst hex_digits.simps) simp
  qed
qed

lemma Sprintf_8_8x_length: "length (Sprintf_8_8x v) = 8"
proof -
  have "uint v < 2 ^ 32"
    using uint_lt2p [of v] by simp
  then have "uint v < 16 ^ 8" by simp
  then have "length (hex_digits (uint v)) \<le> 8"
    by (intro hex_digits_length) simp_all
  then show ?thesis
    by (simp add: Sprintf_8_8x_def Let_def)
qed

lemma FormatUint_nonempty: "FormatUint n \<noteq> []"
  by (subst FormatUint.simps) simp

lemma digit_val_decimal: "0 \<le> n \<Longrightarrow> n < 10 \<Longrightarrow> digit_val (hextable ! nat n) = Some n"
  using digit_val_hextable [of "nat n"] by simp

lemma ParseUint_digits_FormatUint:
  "0 \<le> n \<Longrightarrow> 0 \<le> a \<Longrightarrow> a * 10 ^ length (FormatUint n) + n < 2 ^ 64 \<Longrightarrow>
   ParseUint_digits 10 a (FormatUint n @ rest) =
     ParseUint_digits 10 (a * 10 ^ length (FormatUint n) + n) rest"
proof (induction n arbitrary: rest rule: FormatUint.induct)
  case (1 n)
  show ?case
  proof (cases "n < 10")
    case True
    have f: "FormatUint n = [hextable ! nat n]"
      using True by (subst FormatUint.simps) simp
    show ?thesis
      using True "1.prems" by (simp add: f digit_val_decimal)
  next
    case False
    let ?q = "n div 10" and ?r = "n mod 10"
    have f: "FormatUint n = FormatUint ?q @ [hextable ! nat ?r]"
      using False by (subst FormatUint.simps) simp
    have q0: "0 \<le> ?q" using "1.prems"(1) by simp
    have r: "0 \<le> ?r" "?r < 10" by simp_all
    have n: "n = ?q * 10 + ?r" by simp
    let ?l = "length (FormatUint ?q)"
    have bound': "a * 10 ^ Suc ?l + n < 2 ^ 64"
      using "1.prems"(3) by (simp add: f)
    have "10 * (a * 10 ^ ?l + ?q) \<le> a * 10 ^ Suc ?l + n"
      using n r by (simp add: algebra_simps)
    with bound' have bq: "a * 10 ^ ?l + ?q < 2 ^ 64"
      using "1.prems"(2) q0 by (smt (verit) mult_nonneg_nonneg zero_le_power)
    have eq: "(a * 10 ^ ?l + ?q) * 10 + ?r = a * 10 ^ Suc ?l + n"
      using n by (simp add: algebra_simps)
    have "ParseUint_digits 10 a (FormatUint n @ rest) =
          ParseUint_digits 10 a (FormatUint ?q @ (hextable ! nat ?r # rest))"
      by (simp add: f)
    also have "\<dots> = ParseUint_digits 10 (a * 10 ^ ?l + ?q) (hextable ! nat ?r # rest)"
      by (rule "1.IH" [OF False q0 "1.prems"(2) bq])
    also have "\<dots> = ParseUint_digits 10 (a * 10 ^ Suc ?l + n) rest"
    proof -
      define A where "A = a * 10 ^ ?l + ?q"
      have dv: "digit_val (hextable ! nat ?r) = Some ?r"
        by (rule digit_val_decimal [OF r])
      have A: "A * 10 + ?r = a * 10 ^ Suc ?l + n"
        using eq by (simp only: A_def)
      then have nb: "\<not> 2 ^ 64 \<le> A * 10 + ?r"
        using bound' by (simp only: not_le)
      have "ParseUint_digits 10 A (hextable ! nat ?r # rest) =
            ParseUint_digits 10 (A * 10 + ?r) rest"
        using r(2) nb by (simp only: ParseUint_digits.simps dv option.case not_le [symmetric] if_False)
      then show ?thesis
        by (simp only: A A_def [symmetric])
    qed
    finally show ?thesis
      by (simp only: f length_append list.size add_Suc_right add_0_right One_nat_def)
  qed
qed


lemma ParseUint_FormatUint:
  assumes "0 \<le> n" and "n < 2 ^ 64"
  shows "ParseUint (FormatUint n) 10 = (n, None)"
  using ParseUint_digits_FormatUint [of n 0 "[]"] assms
  by (simp add: ParseUint_def FormatUint_nonempty)

lemma hd_FormatUint:
  "0 \<le> n \<Longrightarrow> \<exists>d. 0 \<le> d \<and> d < 10 \<and> hd (FormatUint n) = hextable ! nat d"
proof (induction n rule: FormatUint.induct)
  case (1 n)
  show ?case
  proof (cases "n < 10")
    case True
    then have "FormatUint n = [hextable ! nat n]"
      by (subst FormatUint.simps) simp
    with True "1.prems" show ?thesis by auto
  next
    case False
    then have "FormatUint n = FormatUint (n div 10) @ [hextable ! nat (n mod 10)]"
      by (subst FormatUint.simps) simp
    then have "hd (FormatUint n) = hd (FormatUint (n div 10))"
      by (simp add: FormatUint_nonempty)
    moreover have "0 \<le> n div 10" using "1.prems" by simp
    ultimately show ?thesis
      using "1.IH" [OF False] by simp
  qed
qed

lemma hd_FormatUint_no_sign:
  assumes "0 \<le> n"
  shows "hd (FormatUint n) \<noteq> CHR ''-''" and "hd (FormatUint n) \<noteq> CHR ''+''"
proof -
  from hd_FormatUint [OF assms] obtain d
    where d: "0 \<le> d" "d < 10" "hd (FormatUint n) = hextable ! nat d"
    by blast
  then have "digit_val (hd (FormatUint n)) = Some d"
    by (simp add: digit_val_decimal)
  then show "hd (FormatUint n) \<noteq> CHR ''-''" and "hd (FormatUint n) \<noteq> CHR ''+''"
    by (auto simp: digit_val_def)
qed

text \<open>The decimal string of a 64-bit integer parses back to the integer.\<close>

lemma ParseInt_FormatInt:
  assumes "- (2 ^ 63) \<le> i" and "i < 2 ^ 63"
  shows "ParseInt (FormatInt i) 10 = (i, None)"
proof (cases "i < 0")
  case True
  then have u: "ParseUint (FormatUint (- i)) 10 = (- i, None)"
    using assms by (intro ParseUint_FormatUint) simp_all
  show ?thesis
    using True assms by (simp add: FormatInt_def ParseInt_def u)
next
  case False
  then have u: "ParseUint (FormatUint i) 10 = (i, None)"
    using assms by (intro ParseUint_FormatUint) simp_all
  show ?thesis
    using False assms hd_FormatUint_no_sign [of i]
    by (simp add: FormatInt_def ParseInt_def u FormatUint_nonempty)
qed

lemma ParseInt_FormatInt_sint: "ParseInt (FormatInt (sint (rc :: 64 word))) 10 = (sint rc, None)"
proof -
  have "- (2 ^ 63) \<le> sint rc" and "sint rc < 2 ^ 63"
    using sint_ge [of rc] sint_lt [of rc] by simp_all
  then show ?thesis by (rule ParseInt_FormatInt)
qed

lemma cluster_of_lengths:
  "length (SystemID (cluster_of buf k)) = 16" and "length (SdcID (cluster_of buf k)) = 16"
  by (simp_all add: cluster_of_def Sprintf_8_8x_length)

subsection \<open>Decoding the identifier\<close>

lemma EncodeToString_Cons:
  "EncodeToString (b # bs) =
     hextable ! unat (drop_bit 4 b) # hextable ! unat (b AND 0x0f) # EncodeToString bs"
  by (simp add: EncodeToString_def)

lemma EncodeToString_length: "length (EncodeToString bs) = 2 * length bs"
  by (induction bs) (simp_all add: EncodeToString_Cons, simp add: EncodeToString_def)

lemma xtob_hex: "xtob (hextable ! unat (drop_bit 4 b)) (hextable ! unat (b AND 0x0f)) = Some b"
proof -
  let ?h = "unat (drop_bit 4 b)" and ?l = "unat (b AND 0x0f)"
  have h: "?h < 16" by (rule hi_nibble)
  have l: "?l < 16" by (simp add: lo_nibble)
  have "int (unat b div 16) * 16 + int (unat b mod 16) = int (unat b)"
    by (simp add: zdiv_int zmod_int)
  then have val: "int ?h * 16 + int ?l = uint b"
    by (simp only: hi_nibble_val lo_nibble) simp
  have "word_of_int (int ?h * 16 + int ?l) = b"
    by (simp only: val) simp
  with h l show ?thesis
    by (simp add: xtob_def digit_val_hextable [OF h] digit_val_hextable [OF l] del: of_nat_unat)
qed

lemma uuid_pairs_EncodeToString: "uuid_pairs (EncodeToString bs) = (bs, True)"
proof (induction bs)
  case Nil
  then show ?case by (simp add: EncodeToString_def)
next
  case (Cons b bs)
  then show ?case by (simp add: EncodeToString_Cons xtob_hex)
qed

lemma uuid_Parse_EncodeToString:
  "length bs = 16 \<Longrightarrow> uuid_Parse (EncodeToString bs) = (bs, True)"
  by (simp add: uuid_Parse_def EncodeToString_length uuid_pairs_EncodeToString)

text \<open>The GUID returned is the canonical form of the 16 identifier bytes, in upper case.\<close>

lemma guid_of_bytes: "guid_of buf = ToUpper (uuid_String (map (guid_uuid buf) [0..<16]))"
  by (simp add: guid_of_def uuid_Parse_EncodeToString)

subsection \<open>The GUID query, path by path\<close>

lemma guid_open_fails:
  "open_error dev = Some err \<Longrightarrow> DrvCfgQueryGUID False dev = (Fails err, [DevOpen])"
  by (simp add: DrvCfgQueryGUID_def)

lemma guid_ioctl_fails:
  assumes "open_error dev = None"
    and "ioctl_guid dev (IO IOCTLBase IOCTLQueryGUID) zero_ioctlGUID = (ep, buf)" and "ep \<noteq> 0"
  shows "fst (DrvCfgQueryGUID False dev) = Fails (Errorf ''QueryGUID error: '' (Errno ep))"
  using assms unfolding DrvCfgQueryGUID_def ioctl_def Let_def by simp

lemma guid_ioctl_ok:
  assumes "open_error dev = None"
    and "ioctl_guid dev (IO IOCTLBase IOCTLQueryGUID) zero_ioctlGUID = (0, buf)"
  shows "fst (DrvCfgQueryGUID False dev) =
     (if guid_rc buf 0 \<noteq> 65
      then Fails (ErrorString (''Request to query GUID failed, RC='' @ FormatInt (uint (guid_rc buf 0))))
      else Returns (guid_of buf))"
  using assms unfolding DrvCfgQueryGUID_def ioctl_def Let_def guid_of_def
  by (cases "guid_rc buf 0 = 65")
    (simp_all only: rc_of_byte uint_65 option.case prod.case if_False if_True fst_conv simp_thms)

subsection \<open>The decoding loop\<close>

lemma unat_succ_below: "(i :: 16 word) < n \<Longrightarrow> unat (i + 1) = Suc (unat i)"
  by (metis (no_types, lifting) add.commute add_0 inc_i inc_le
        unat_plus_simple unsigned_0 unsigned_1 word_gt_0 Suc_eq_plus1)

lemma decode_mdms_from:
  "unat i \<le> len_mdms \<Longrightarrow> i \<le> numMdms buf \<Longrightarrow>
   decode_mdms buf i acc =
     (if unat (numMdms buf) \<le> len_mdms
      then Returns (acc @ map (cluster_of buf) [unat i..<unat (numMdms buf)])
      else Panics ''index out of range'')"
proof (induction buf i acc rule: decode_mdms.induct)
  case (1 buf i clusters)
  show ?case
  proof (cases "i < numMdms buf")
    case False
    then have stop: "decode_mdms buf i clusters = Returns clusters"
      by (subst decode_mdms.simps) simp
    from False "1.prems" have "unat i = unat (numMdms buf)" by simp
    with "1.prems"(1) show ?thesis
      unfolding stop by simp
  next
    case lt: True
    then have ui: "unat i < unat (numMdms buf)"
      by (simp add: word_less_nat_alt)
    have suc: "unat (i + 1) = Suc (unat i)"
      by (rule unat_succ_below [OF lt])
    have le': "i + 1 \<le> numMdms buf"
      using lt by (simp add: inc_le)
    show ?thesis
    proof (cases "unat i < len_mdms")
      case False
      then have "decode_mdms buf i clusters = Panics ''index out of range''"
        using lt by (subst decode_mdms.simps) simp
      with False ui show ?thesis
        by simp
    next
      case True
      then have b: "unat (i + 1) \<le> len_mdms"
        by (simp add: suc)
      have step: "decode_mdms buf i clusters =
          decode_mdms buf (i + 1) (clusters @ [cluster_of buf (unat i)])"
        using lt True by (subst decode_mdms.simps) (simp add: cluster_of_def Let_def)
      have "decode_mdms buf (i + 1) (clusters @ [cluster_of buf (unat i)]) =
         (if unat (numMdms buf) \<le> len_mdms
          then Returns ((clusters @ [cluster_of buf (unat i)]) @
                 map (cluster_of buf) [unat (i + 1)..<unat (numMdms buf)])
          else Panics ''index out of range'')"
        using "1.IH" [OF lt True refl refl refl b le'] by (simp add: cluster_of_def)
      then show ?thesis
        using ui by (simp add: step suc upt_conv_Cons)
    qed
  qed
qed

lemma decode_mdms_all:
  "decode_mdms buf 0 [] =
     (if unat (numMdms buf) \<le> len_mdms
      then Returns (map (cluster_of buf) [0..<unat (numMdms buf)])
      else Panics ''index out of range'')"
  using decode_mdms_from [of 0 buf "[]"] by simp

subsection \<open>The cluster-list query, path by path\<close>

lemma systems_open_fails:
  "open_error dev = Some err \<Longrightarrow> DrvCfgQuerySystems False dev = (Fails err, [DevOpen])"
  by (simp add: DrvCfgQuerySystems_def)

lemma systems_ioctl_fails:
  assumes "open_error dev = None"
    and "ioctl_mdms dev (IO IOCTLBase IOCTLQueryMDM)
           (zero_ioctlQueryMDMs\<lparr>numMdms := word_of_nat len_mdms\<rparr>) = (ep, buf)"
    and "ep \<noteq> 0"
  shows "fst (DrvCfgQuerySystems False dev) = Fails (Errorf ''queryMDM error: '' (Errno ep))"
  using assms unfolding DrvCfgQuerySystems_def ioctl_def Let_def by simp

lemma systems_ioctl_ok:
  assumes "open_error dev = None"
    and "ioctl_mdms dev (IO IOCTLBase IOCTLQueryMDM)
           (zero_ioctlQueryMDMs\<lparr>numMdms := word_of_nat len_mdms\<rparr>) = (0, buf)"
  shows "fst (DrvCfgQuerySystems False dev) =
     (if mdms_rc buf 0 \<noteq> 65
      then Fails (ErrorString (''Request to query MDM failed, RC='' @ FormatInt (uint (mdms_rc buf 0))))
      else if unat (numMdms buf) \<le> len_mdms
      then Returns (map (cluster_of buf) [0..<unat (numMdms buf)])
      else Panics ''index out of range'')"
  using assms unfolding DrvCfgQuerySystems_def ioctl_def Let_def
  by (cases "mdms_rc buf 0 = 65")
    (simp_all only: rc_of_byte uint_65 decode_mdms_all option.case prod.case if_False if_True
       fst_conv simp_thms)

subsection \<open>The rescan request, path by path\<close>

lemma rescan_open_fails:
  "open_error dev = Some err \<Longrightarrow>
   DrvCfgQueryRescan dev = (Fails (ErrorString ''Powerflex SDC is not installed''), [DevOpen])"
  by (simp add: DrvCfgQueryRescan_def)

lemma rescan_ioctl:
  assumes "open_error dev = None"
    and "ioctl_rescan dev (IO IOCTLBase IOCTLRescan) 0 = (ep, rc)"
  shows "fst (DrvCfgQueryRescan dev) =
     (if ep \<noteq> 0 then Fails (Errorf ''Rescan error: '' (Errno ep))
      else Returns (FormatInt (sint rc)))"
  using assms unfolding DrvCfgQueryRescan_def ioctl_def Let_def by simp

subsection \<open>The three queries on a sample device\<close>

lemma guid_sample_value:
  "DrvCfgQueryGUID False (sample_device 65 2 0) =
     (Returns ''00112233-4455-6677-8899-AABBCCDDEEFF'', [DevOpen, DevIoctl 0x610E, DevClose])"
  by code_simp

lemma systems_sample_value:
  "DrvCfgQuerySystems False (sample_device 65 2 0) =
     (Returns [\<lparr>SystemID = ''00001a2b00000000'', SdcID = ''deadbeef00000007''\<rparr>,
               \<lparr>SystemID = ''00001a2b00000001'', SdcID = ''deadbeef00000007''\<rparr>],
      [DevOpen, DevIoctl 0x610C, DevClose])"
  by code_simp

lemma guid_failure_value:
  "DrvCfgQueryGUID False (sample_device 7 2 0) =
     (Fails (ErrorString ''Request to query GUID failed, RC=7''),
      [DevOpen, DevIoctl 0x610E, DevClose])"
  by code_simp

subsection \<open>Claims about the driver query channel\<close>

text \<open>
  C7, as stated, fails: the claim reads 14 as the device class of the GUID op-code.
  In the source 14 is the command number \<^verbatim>\<open>_IOCTLQueryGUID\<close> and the class is
  \<^verbatim>\<open>_IOCTLBase = 'a'\<close>: the class byte of the GUID op-code is not 14, and the op-code is
  not \<^verbatim>\<open>(0<<30)|(14<<8)\<close> combined with its command number.
\<close>

theorem guid_opcode_class_is_not_14:
  "take_bit 8 (drop_bit 8 (IO IOCTLBase IOCTLQueryGUID)) \<noteq> (14 :: uintptr)
   \<and> IO IOCTLBase IOCTLQueryGUID \<noteq> (push_bit 30 0 OR push_bit 8 14 OR IOCTLQueryGUID)"
  by (simp add: IO_def IOC_def IOCTLBase_def IOCTLQueryGUID_def)

text \<open>
  C7, amended: each of the three op-codes is \<^verbatim>\<open>(direction << 30) | (class << 8) | command\<close>
  with direction 0 and size 0, where the class is the constant \<^verbatim>\<open>'a'\<close> (97) and the command
  number is 14 for the GUID query, 12 for the cluster list and 10 for the rescan; the
  GUID op-code is \<^verbatim>\<open>(0<<30)|(97<<8)|14 = 24846\<close>. The direction field (bits 30 and up),
  the size field (bits 16 to 29), the class byte (bits 8 to 15) and the command byte
  (bits 0 to 7) of each op-code are read back.
\<close>

theorem opcode_packing:
  "IO IOCTLBase IOCTLQueryGUID = (push_bit 30 0 OR push_bit 8 97 OR 14)
   \<and> IO IOCTLBase IOCTLQueryMDM = (push_bit 30 0 OR push_bit 8 97 OR 12)
   \<and> IO IOCTLBase IOCTLRescan = (push_bit 30 0 OR push_bit 8 97 OR 10)
   \<and> IO IOCTLBase IOCTLQueryGUID = 24846
   \<and> IO IOCTLBase IOCTLQueryMDM = 24844
   \<and> IO IOCTLBase IOCTLRescan = 24842
   \<and> drop_bit 30 (IO IOCTLBase IOCTLQueryGUID) = 0
   \<and> drop_bit 30 (IO IOCTLBase IOCTLQueryMDM) = 0
   \<and> drop_bit 30 (IO IOCTLBase IOCTLRescan) = 0
   \<and> take_bit 14 (drop_bit 16 (IO IOCTLBase IOCTLQueryGUID)) = 0
   \<and> take_bit 14 (drop_bit 16 (IO IOCTLBase IOCTLQueryMDM)) = 0
   \<and> take_bit 14 (drop_bit 16 (IO IOCTLBase IOCTLRescan)) = 0
   \<and> take_bit 8 (drop_bit 8 (IO IOCTLBase IOCTLQueryGUID)) = 97
   \<and> take_bit 8 (drop_bit 8 (IO IOCTLBase IOCTLQueryMDM)) = 97
   \<and> take_bit 8 (drop_bit 8 (IO IOCTLBase IOCTLRescan)) = 97
   \<and> take_bit 8 (IO IOCTLBase IOCTLQueryGUID) = 14
   \<and> take_bit 8 (IO IOCTLBase IOCTLQueryMDM) = 12
   \<and> take_bit 8 (IO IOCTLBase IOCTLRescan) = 10"
  by (simp add: IO_def IOC_def IOCTLBase_def IOCTLQueryGUID_def IOCTLQueryMDM_def IOCTLRescan_def)

text \<open>
  C8: in mock mode, whatever the device, the GUID query returns the sentinel GUID with no
  error, and the cluster-list query returns exactly one cluster, with system id
  000000000001 and the sentinel GUID as SDC id, with no error; neither performs any
  operation on the device (the list of device operations is empty).
\<close>

theorem mock_mode_results:
  "DrvCfgQueryGUID True dev = (Returns ''9E56672F-2F4B-4A42-BFF4-88B6846FBFDA'', [])
   \<and> DrvCfgQuerySystems True dev =
       (Returns [\<lparr>SystemID = ''000000000001'', SdcID = ''9E56672F-2F4B-4A42-BFF4-88B6846FBFDA''\<rparr>], [])"
  by (simp add: DrvCfgQueryGUID_def DrvCfgQuerySystems_def mockGUID_def mockSystem_def)

text \<open>
  C2, as stated, fails for the cluster-list query: the ioctl succeeds and byte 0 of the
  return code is 65, yet with a reported count of 21 the call returns no decoded result
  (the decoding loop panics at index 20).
\<close>

theorem return_code_65_without_result:
  "open_error (sample_device 65 21 0) = None
   \<and> ioctl (ioctl_mdms (sample_device 65 21 0)) (IO IOCTLBase IOCTLQueryMDM)
         (zero_ioctlQueryMDMs\<lparr>numMdms := 20\<rparr>) = (None, sample_mdms_reply 65 21)
   \<and> mdms_rc (sample_mdms_reply 65 21) 0 = 65
   \<and> fst (DrvCfgQuerySystems False (sample_device 65 21 0)) = Panics ''index out of range''"
proof -
  have "fst (DrvCfgQuerySystems False (sample_device 65 21 0)) = Panics ''index out of range''"
    by (subst systems_ioctl_ok [where buf = "sample_mdms_reply 65 21"])
      (simp_all add: sample_device_def opcode_values sample_mdms_reply_def len_mdms_def)
  then show ?thesis
    by (simp add: sample_device_def opcode_values sample_mdms_reply_def ioctl_def)
qed

text \<open>
  C2, amended: when the device opens and the ioctl succeeds, the GUID query returns a
  decoded result if and only if byte 0 of the return-code field is 65, and an error if
  and only if it is not; the cluster-list query returns an error if and only if byte 0
  is not 65, whatever the rest of the payload, and returns a decoded result if and only
  if byte 0 is 65 and the reported count does not exceed the capacity 20.
\<close>

theorem return_code_check:
  assumes "open_error dev = None"
  shows "(ioctl_guid dev (IO IOCTLBase IOCTLQueryGUID) zero_ioctlGUID = (0, gbuf) \<longrightarrow>
            ((\<exists>g. fst (DrvCfgQueryGUID False dev) = Returns g) \<longleftrightarrow> guid_rc gbuf 0 = 65) \<and>
            ((\<exists>e. fst (DrvCfgQueryGUID False dev) = Fails e) \<longleftrightarrow> guid_rc gbuf 0 \<noteq> 65))
       \<and> (ioctl_mdms dev (IO IOCTLBase IOCTLQueryMDM) (zero_ioctlQueryMDMs\<lparr>numMdms := 20\<rparr>)
             = (0, mbuf) \<longrightarrow>
            ((\<exists>e. fst (DrvCfgQuerySystems False dev) = Fails e) \<longleftrightarrow> mdms_rc mbuf 0 \<noteq> 65) \<and>
            ((\<exists>cs. fst (DrvCfgQuerySystems False dev) = Returns cs) \<longleftrightarrow>
               mdms_rc mbuf 0 = 65 \<and> unat (numMdms mbuf) \<le> 20))"
proof (intro conjI impI)
  assume g: "ioctl_guid dev (IO IOCTLBase IOCTLQueryGUID) zero_ioctlGUID = (0, gbuf)"
  show "(\<exists>g. fst (DrvCfgQueryGUID False dev) = Returns g) \<longleftrightarrow> guid_rc gbuf 0 = 65"
    by (simp add: guid_ioctl_ok [OF assms g])
  show "(\<exists>e. fst (DrvCfgQueryGUID False dev) = Fails e) \<longleftrightarrow> guid_rc gbuf 0 \<noteq> 65"
    by (simp add: guid_ioctl_ok [OF assms g])
next
  assume "ioctl_mdms dev (IO IOCTLBase IOCTLQueryMDM) (zero_ioctlQueryMDMs\<lparr>numMdms := 20\<rparr>)
            = (0, mbuf)"
  then have m: "ioctl_mdms dev (IO IOCTLBase IOCTLQueryMDM)
      (zero_ioctlQueryMDMs\<lparr>numMdms := word_of_nat len_mdms\<rparr>) = (0, mbuf)"
    by (simp add: len_mdms_def)
  show "(\<exists>e. fst (DrvCfgQuerySystems False dev) = Fails e) \<longleftrightarrow> mdms_rc mbuf 0 \<noteq> 65"
    by (simp add: systems_ioctl_ok [OF assms m])
  show "(\<exists>cs. fst (DrvCfgQuerySystems False dev) = Returns cs) \<longleftrightarrow>
      mdms_rc mbuf 0 = 65 \<and> unat (numMdms mbuf) \<le> 20"
    by (simp add: systems_ioctl_ok [OF assms m] len_mdms_def)
qed

theorem return_code_check_witness:
  "open_error (sample_device 65 2 0) = None
   \<and> ioctl_guid (sample_device 65 2 0) (IO IOCTLBase IOCTLQueryGUID) zero_ioctlGUID
       = (0, sample_guid_reply 65)
   \<and> ioctl_mdms (sample_device 65 2 0) (IO IOCTLBase IOCTLQueryMDM)
         (zero_ioctlQueryMDMs\<lparr>numMdms := 20\<rparr>) = (0, sample_mdms_reply 65 2)
   \<and> (\<exists>g. fst (DrvCfgQueryGUID False (sample_device 65 2 0)) = Returns g)
   \<and> (\<exists>cs. fst (DrvCfgQuerySystems False (sample_device 65 2 0)) = Returns cs)
   \<and> open_error (sample_device 64 2 0) = None
   \<and> ioctl_guid (sample_device 64 2 0) (IO IOCTLBase IOCTLQueryGUID) zero_ioctlGUID
       = (0, sample_guid_reply 64)
   \<and> ioctl_mdms (sample_device 64 2 0) (IO IOCTLBase IOCTLQueryMDM)
         (zero_ioctlQueryMDMs\<lparr>numMdms := 20\<rparr>) = (0, sample_mdms_reply 64 2)
   \<and> (\<exists>e. fst (DrvCfgQueryGUID False (sample_device 64 2 0)) = Fails e)
   \<and> (\<exists>e. fst (DrvCfgQuerySystems False (sample_device 64 2 0)) = Fails e)"
  using return_code_check [of "sample_device 65 2 0" "sample_guid_reply 65" "sample_mdms_reply 65 2"]
    return_code_check [of "sample_device 64 2 0" "sample_guid_reply 64" "sample_mdms_reply 64 2"]
  by (simp add: sample_device_def opcode_values sample_guid_reply_def sample_mdms_reply_def)

text \<open>
  C4, as stated, fails: the rescan request does not compare the code the driver writes
  with the sentinel 65. On a device whose rescan ioctl succeeds and writes 0, the call
  returns the string 0 with no error.
\<close>

theorem rescan_code_not_validated:
  "open_error (sample_device 65 1 0) = None
   \<and> ioctl (ioctl_rescan (sample_device 65 1 0)) (IO IOCTLBase IOCTLRescan) 0 = (None, 0)
   \<and> DrvCfgQueryRescan (sample_device 65 1 0) =
       (Returns ''0'', [DevOpen, DevIoctl 24842, DevClose])"
  by (simp add: DrvCfgQueryRescan_def sample_device_def opcode_values ioctl_def FormatInt_def
      FormatUint.simps [of 0] hextable_def IO_def IOC_def IOCTLBase_def IOCTLRescan_def)

text \<open>
  C4, amended: when the device opens and the rescan ioctl succeeds, the 8-byte integer
  the driver wrote is returned as a signed decimal string (one that parses back to the
  integer) with no error, whatever its value (it is not compared with the sentinel);
  the function has no mock-mode
  parameter, and when the device cannot be opened the operation fails with the error
  "Powerflex SDC is not installed".
\<close>

theorem rescan_result:
  "(open_error dev = None \<and> ioctl_rescan dev (IO IOCTLBase IOCTLRescan) 0 = (0, rc) \<longrightarrow>
      fst (DrvCfgQueryRescan dev) = Returns (FormatInt (sint rc)))
   \<and> ParseInt (FormatInt (sint rc)) 10 = (sint rc, None)
   \<and> (open_error dev \<noteq> None \<longrightarrow>
      DrvCfgQueryRescan dev = (Fails (ErrorString ''Powerflex SDC is not installed''), [DevOpen]))"
  by (auto simp: rescan_ioctl rescan_open_fails ParseInt_FormatInt_sint)

theorem rescan_result_witness:
  "open_error (sample_device 65 1 (- 5)) = None
   \<and> ioctl_rescan (sample_device 65 1 (- 5)) (IO IOCTLBase IOCTLRescan) 0 = (0, - 5)
   \<and> fst (DrvCfgQueryRescan (sample_device 65 1 (- 5))) = Returns ''-5''
   \<and> open_error missing_device \<noteq> None
   \<and> DrvCfgQueryRescan missing_device =
       (Fails (ErrorString ''Powerflex SDC is not installed''), [DevOpen])"
  using rescan_result [of "sample_device 65 1 (- 5)" "- 5"] rescan_result [of missing_device 0]
  by (simp add: sample_device_def opcode_values missing_device_def FormatInt_def FormatUint.simps [of 5]
      hextable_def)

text \<open>
  C5, as stated, fails: on a device whose cluster-list ioctl succeeds with return code
  65 and a reported count of 65535, above the capacity 20, the call panics with an
  index out of range instead of returning a result or an error.
\<close>

theorem systems_count_above_capacity_panics:
  "open_error (sample_device 65 65535 0) = None
   \<and> numMdms (snd (ioctl_mdms (sample_device 65 65535 0) (IO IOCTLBase IOCTLQueryMDM)
         (zero_ioctlQueryMDMs\<lparr>numMdms := 20\<rparr>))) = 65535
   \<and> fst (DrvCfgQuerySystems False (sample_device 65 65535 0)) = Panics ''index out of range''"
proof -
  have "fst (DrvCfgQuerySystems False (sample_device 65 65535 0)) = Panics ''index out of range''"
    by (subst systems_ioctl_ok [where buf = "sample_mdms_reply 65 65535"])
      (simp_all add: sample_device_def opcode_values sample_mdms_reply_def len_mdms_def)
  then show ?thesis
    by (simp add: sample_device_def opcode_values sample_mdms_reply_def)
qed

text \<open>
  C5, amended: for every driver response whose reported record count is at most the
  capacity 20, the cluster-list query returns either a decoded result or an error and
  does not panic; with return code 65 the result has one cluster for each reported
  record. The code does not compare the reported count with the capacity and has no
  error for it: with return code 65 and a count above 20 the index expression
  \<^verbatim>\<open>buf.mdms[i]\<close> panics at index 20 (Go checks the bound, nothing is read out of
  bounds).
\<close>

theorem systems_within_capacity:
  "(unat (numMdms (snd (ioctl_mdms dev (IO IOCTLBase IOCTLQueryMDM)
         (zero_ioctlQueryMDMs\<lparr>numMdms := 20\<rparr>)))) \<le> 20 \<longrightarrow>
      (\<exists>cs. fst (DrvCfgQuerySystems mock dev) = Returns cs) \<or>
      (\<exists>e. fst (DrvCfgQuerySystems mock dev) = Fails e))
   \<and> (open_error dev = None \<and>
       ioctl_mdms dev (IO IOCTLBase IOCTLQueryMDM) (zero_ioctlQueryMDMs\<lparr>numMdms := 20\<rparr>)
         = (0, buf) \<and>
       mdms_rc buf 0 = 65 \<longrightarrow>
        (unat (numMdms buf) \<le> 20 \<longrightarrow>
           fst (DrvCfgQuerySystems False dev) =
             Returns (map (cluster_of buf) [0..<unat (numMdms buf)])) \<and>
        (20 < unat (numMdms buf) \<longrightarrow>
           fst (DrvCfgQuerySystems False dev) = Panics ''index out of range''))"
proof (intro conjI impI)
  let ?buf0 = "zero_ioctlQueryMDMs\<lparr>numMdms := 20\<rparr>"
  have buf0: "zero_ioctlQueryMDMs\<lparr>numMdms := word_of_nat len_mdms\<rparr> = ?buf0"
    by (simp add: len_mdms_def)
  {
    assume small: "unat (numMdms (snd (ioctl_mdms dev (IO IOCTLBase IOCTLQueryMDM) ?buf0))) \<le> 20"
    show "(\<exists>cs. fst (DrvCfgQuerySystems mock dev) = Returns cs) \<or>
          (\<exists>e. fst (DrvCfgQuerySystems mock dev) = Fails e)"
    proof (cases mock)
      case True
      then show ?thesis by (simp add: DrvCfgQuerySystems_def)
    next
      case False
      show ?thesis
      proof (cases "open_error dev")
        case (Some err)
        with False show ?thesis by (simp add: systems_open_fails)
      next
        case None
        obtain ep b where r: "ioctl_mdms dev (IO IOCTLBase IOCTLQueryMDM) ?buf0 = (ep, b)"
          by (cases "ioctl_mdms dev (IO IOCTLBase IOCTLQueryMDM) ?buf0")
        show ?thesis
        proof (cases "ep = 0")
          case True
          with r small False show ?thesis
            by (simp add: systems_ioctl_ok [OF None, of b] buf0 len_mdms_def)
        next
          case nz: False
          with r False show ?thesis
            by (simp add: systems_ioctl_fails [OF None, of ep b] buf0)
        qed
      qed
    qed
  }
  {
    assume h: "open_error dev = None \<and>
       ioctl_mdms dev (IO IOCTLBase IOCTLQueryMDM) ?buf0 = (0, buf) \<and> mdms_rc buf 0 = 65"
    then have ok: "fst (DrvCfgQuerySystems False dev) =
       (if unat (numMdms buf) \<le> len_mdms
        then Returns (map (cluster_of buf) [0..<unat (numMdms buf)])
        else Panics ''index out of range'')"
      by (simp add: systems_ioctl_ok [of dev buf] buf0)
    {
      assume "unat (numMdms buf) \<le> 20"
      then show "fst (DrvCfgQuerySystems False dev) =
          Returns (map (cluster_of buf) [0..<unat (numMdms buf)])"
        by (simp add: ok len_mdms_def)
    }
    {
      assume "20 < unat (numMdms buf)"
      then show "fst (DrvCfgQuerySystems False dev) = Panics ''index out of range''"
        by (simp add: ok len_mdms_def)
    }
  }
qed

theorem systems_within_capacity_witness:
  "unat (numMdms (snd (ioctl_mdms (sample_device 65 2 0) (IO IOCTLBase IOCTLQueryMDM)
       (zero_ioctlQueryMDMs\<lparr>numMdms := 20\<rparr>)))) \<le> 20
   \<and> open_error (sample_device 65 2 0) = None
   \<and> ioctl_mdms (sample_device 65 2 0) (IO IOCTLBase IOCTLQueryMDM)
         (zero_ioctlQueryMDMs\<lparr>numMdms := 20\<rparr>) = (0, sample_mdms_reply 65 2)
   \<and> mdms_rc (sample_mdms_reply 65 2) 0 = 65
   \<and> fst (DrvCfgQuerySystems False (sample_device 65 2 0)) =
       Returns (map (cluster_of (sample_mdms_reply 65 2)) [0..<2])
   \<and> 20 < unat (numMdms (sample_mdms_reply 65 300))
   \<and> fst (DrvCfgQuerySystems False (sample_device 65 300 0)) = Panics ''index out of range''"
  using systems_within_capacity [of "sample_device 65 2 0" False "sample_mdms_reply 65 2"]
    systems_within_capacity [of "sample_device 65 300 0" False "sample_mdms_reply 65 300"]
  by (simp add: sample_device_def opcode_values sample_mdms_reply_def)

section \<open>Properties of the REST session layer\<close>

subsection \<open>The version pattern\<close>

lemma digit_not_dot: "is_digit c \<Longrightarrow> \<not> is_dot c"
  by (auto simp: is_digit_def is_dot_def)

lemma digit_not_newline: "is_digit c \<Longrightarrow> not_newline c"
  by (auto simp: is_digit_def not_newline_def)

lemma not_newline_iff: "not_newline c \<longleftrightarrow> c \<noteq> CHR 0x0A"
  by (simp add: not_newline_def)

lemma run_tail:
  "run [Rep not_newline True, AssertEnd] pos s caps =
     (if CHR 0x0A \<notin> set s then Some (pos + length s, caps) else None)"
proof (induction s arbitrary: pos)
  case Nil
  then show ?case by simp
next
  case (Cons c cs)
  show ?case
  proof (cases "not_newline c")
    case True
    then have "c \<noteq> CHR 0x0A" by (simp add: not_newline_iff)
    with True show ?thesis by (simp add: Cons.IH)
  next
    case False
    then have "c = CHR 0x0A" by (simp add: not_newline_iff)
    with False show ?thesis by simp
  qed
qed

lemma run_lazy_minor:
  "run [Rep is_digit False, Save 3, Rep not_newline True, AssertEnd] pos s caps =
     (if CHR 0x0A \<notin> set s then Some (pos + length s, AList.update 3 pos caps) else None)"
proof (induction s arbitrary: pos)
  case Nil
  then show ?case by simp
next
  case (Cons c cs)
  show ?case
  proof (cases "CHR 0x0A \<in> set (c # cs)")
    case False
    then have "not_newline c" and "CHR 0x0A \<notin> set cs" and "c \<noteq> CHR 0x0A"
      by (auto simp: not_newline_iff)
    then show ?thesis by (simp add: run_tail)
  next
    case True
    then have t: "run [Rep not_newline True, AssertEnd] pos (c # cs) (AList.update 3 pos caps) = None"
      by (simp only: run_tail if_not_P not_not)
    show ?thesis
    proof (cases "is_digit c")
      case d: True
      then have "c \<noteq> CHR 0x0A"
        using digit_not_newline [of c] by (simp add: not_newline_iff)
      with True have "CHR 0x0A \<in> set cs" by auto
      with True d t show ?thesis by (simp add: Cons.IH del: run.simps(8))
    next
      case False
      with True t show ?thesis by (simp del: run.simps(8))
    qed
  qed
qed

lemma run_greedy_minor:
  "run [Rep is_digit True, Save 3, Rep not_newline True, AssertEnd] pos s caps =
     (if CHR 0x0A \<notin> set s
      then Some (pos + length s, AList.update 3 (pos + length (takeWhile is_digit s)) caps)
      else None)"
proof (induction s arbitrary: pos)
  case Nil
  then show ?case by simp
next
  case (Cons c cs)
  show ?case
  proof (cases "is_digit c")
    case False
    have "run [Rep is_digit True, Save 3, Rep not_newline True, AssertEnd] pos (c # cs) caps =
          run [Rep not_newline True, AssertEnd] pos (c # cs) (AList.update 3 pos caps)"
      using False by simp
    with False show ?thesis by (simp only: run_tail takeWhile.simps if_False list.size add_0_right)
  next
    case d: True
    then have nl: "c \<noteq> CHR 0x0A"
      using digit_not_newline [of c] by (simp add: not_newline_iff)
    show ?thesis
    proof (cases "CHR 0x0A \<in> set cs")
      case True
      then have t: "run [Rep not_newline True, AssertEnd] pos (c # cs) (AList.update 3 pos caps) = None"
        by (simp only: run_tail) simp
      have step: "run [Rep is_digit True, Save 3, Rep not_newline True, AssertEnd] pos (c # cs) caps =
         (case run [Rep is_digit True, Save 3, Rep not_newline True, AssertEnd] (Suc pos) cs caps of
            Some r \<Rightarrow> Some r
          | None \<Rightarrow> run [Rep not_newline True, AssertEnd] pos (c # cs) (AList.update 3 pos caps))"
        by (subst run.simps(8)) (simp only: d if_True run.simps(4))
      from True have ih: "run [Rep is_digit True, Save 3, Rep not_newline True, AssertEnd] (Suc pos) cs caps = None"
        by (simp add: Cons.IH)
      show ?thesis
        unfolding step ih t using True by simp
    next
      case False
      with d nl show ?thesis by (simp add: Cons.IH)
    qed
  qed
qed

lemma run_major:
  "run (Rep is_digit g # One is_dot # q) pos s caps =
     (if dropWhile is_digit s \<noteq> [] \<and> is_dot (hd (dropWhile is_digit s))
      then run q (Suc (pos + length (takeWhile is_digit s))) (tl (dropWhile is_digit s)) caps
      else None)"
proof (induction s arbitrary: pos)
  case Nil
  then show ?case by (cases g) simp_all
next
  case (Cons c cs)
  show ?case
  proof (cases "is_digit c")
    case True
    then have nd: "\<not> is_dot c" by (rule digit_not_dot)
    have step: "run (Rep is_digit g # One is_dot # q) pos (c # cs) caps =
          run (Rep is_digit g # One is_dot # q) (Suc pos) cs caps"
      using True nd by (cases g) (simp_all split: option.splits)
    show ?thesis
      unfolding step using True by (simp add: Cons.IH)
  next
    case False
    then show ?thesis
      by (cases g) (simp_all split: option.splits)
  qed
qed


lemma newline_dropWhile_digit:
  "CHR 0x0A \<in> set (dropWhile is_digit t) \<longleftrightarrow> CHR 0x0A \<in> set t"
proof (induction t)
  case Nil
  then show ?case by simp
next
  case (Cons c cs)
  then show ?case
    using digit_not_newline [of c] by (auto simp: not_newline_iff)
qed

lemma search_anchored: "0 < pos \<Longrightarrow> search (AssertBegin # p) pos s = None"
proof (induction s arbitrary: pos)
  case Nil
  then show ?case by (subst search.simps) simp
next
  case (Cons c cs)
  then show ?case by (subst search.simps) simp
qed

lemma search_at_begin:
  "search (AssertBegin # p) 0 s =
     (case run p 0 s [(0, 0)] of Some (e, caps) \<Rightarrow> Some (AList.update 1 e caps) | None \<Rightarrow> None)"
  by (subst search.simps) (simp add: search_anchored split: option.splits list.splits)

text \<open>What the two programs do after the major digits and the dot.\<close>

lemma run_after_dot_lazy:
  "run [One is_digit, Rep is_digit False, Save 3, Rep not_newline True, AssertEnd] p t caps =
     (if t \<noteq> [] \<and> is_digit (hd t) \<and> CHR 0x0A \<notin> set (tl t)
      then Some (p + length t, AList.update 3 (Suc p) caps) else None)"
  by (cases t) (simp_all add: run_lazy_minor)

lemma run_after_dot_greedy:
  "run [One is_digit, Rep is_digit True, Save 3, Rep not_newline True, AssertEnd] p t caps =
     (if t \<noteq> [] \<and> is_digit (hd t) \<and> CHR 0x0A \<notin> set (tl t)
      then Some (p + length t, AList.update 3 (p + length (takeWhile is_digit t)) caps) else None)"
  by (cases t) (simp_all add: run_greedy_minor)

lemma run_body:
  "run (One is_digit # Rep is_digit g # One is_dot # q) 0 s caps =
     (if takeWhile is_digit s \<noteq> [] \<and> dropWhile is_digit s \<noteq> [] \<and>
         hd (dropWhile is_digit s) = CHR ''.''
      then run q (Suc (length (takeWhile is_digit s))) (tl (dropWhile is_digit s)) caps
      else None)"
proof (cases s)
  case Nil
  then show ?thesis by simp
next
  case (Cons c cs)
  show ?thesis
  proof (cases "is_digit c")
    case True
    with Cons show ?thesis
      by (simp add: run_major is_dot_def)
  next
    case False
    with Cons show ?thesis by simp
  qed
qed

lemma length_split: "length (takeWhile P s) + length (dropWhile P s) = length s"
  by (metis length_append takeWhile_dropWhile_id)

lemma run_versionRX:
  "run versionRX 0 s [(0, 0)] =
     (if shape_ok s
      then Some (length s, [(0, 0), (2, 0), (3, length (takeWhile is_digit s) + 2)])
      else None)"
proof -
  let ?r = "dropWhile is_digit s"
  have len: "?r \<noteq> [] \<Longrightarrow> Suc (length (takeWhile is_digit s) + length (tl ?r)) = length s"
    using length_split [of is_digit s] by (cases ?r) simp_all
  show ?thesis
    using len by (auto simp: versionRX_def run_body run_after_dot_lazy shape_ok_def Let_def)
qed

lemma run_spec_versionRX:
  "run spec_versionRX 0 s [(0, 0)] =
     (if shape_ok s
      then Some (length s, [(0, 0), (2, 0),
             (3, Suc (length (takeWhile is_digit s)) +
                 length (takeWhile is_digit (tl (dropWhile is_digit s))))])
      else None)"
proof -
  let ?r = "dropWhile is_digit s"
  have len: "?r \<noteq> [] \<Longrightarrow> Suc (length (takeWhile is_digit s) + length (tl ?r)) = length s"
    using length_split [of is_digit s] by (cases ?r) simp_all
  show ?thesis
    using len by (auto simp: spec_versionRX_def run_body run_after_dot_greedy shape_ok_def Let_def)
qed


lemma newline_not_digit_run: "CHR 0x0A \<notin> set (takeWhile is_digit t)"
proof
  assume "CHR 0x0A \<in> set (takeWhile is_digit t)"
  then have "is_digit (CHR 0x0A)" by (rule set_takeWhileD [THEN conjunct2])
  then show False by (simp add: is_digit_def)
qed

lemma version_shape_iff: "version_shape s \<noteq> None \<longleftrightarrow> shape_ok s"
proof (cases "dropWhile is_digit s")
  case Nil
  show ?thesis unfolding version_shape_def shape_ok_def Let_def Nil by simp
next
  case (Cons d t)
  have "takeWhile is_digit t \<noteq> [] \<longleftrightarrow> t \<noteq> [] \<and> is_digit (hd t)"
    by (cases t) simp_all
  moreover have "CHR 0x0A \<notin> set (dropWhile is_digit t) \<longleftrightarrow> CHR 0x0A \<notin> set t"
    by (simp add: newline_dropWhile_digit)
  moreover have "t \<noteq> [] \<and> is_digit (hd t) \<Longrightarrow> CHR 0x0A \<notin> set t \<longleftrightarrow> CHR 0x0A \<notin> set (tl t)"
    using digit_not_newline [of "hd t"] by (cases t) (auto simp: not_newline_iff)
  ultimately show ?thesis
    using Cons by (auto simp: version_shape_def shape_ok_def Let_def)
qed

lemma version_shape_parts:
  assumes "version_shape s = Some (major, minor, rest)"
  shows "s = major @ CHR ''.'' # minor @ rest"
    and "major = takeWhile is_digit s"
    and "minor = takeWhile is_digit (tl (dropWhile is_digit s))"
    and "major \<noteq> []" and "minor \<noteq> []" and "CHR 0x0A \<notin> set rest"
proof -
  obtain d t where r: "dropWhile is_digit s = d # t"
    using assms by (cases "dropWhile is_digit s") (simp_all add: version_shape_def)
  from assms r have parts: "major = takeWhile is_digit s" "d = CHR ''.''"
    "minor = takeWhile is_digit t" "rest = dropWhile is_digit t"
    "major \<noteq> []" "minor \<noteq> []" "CHR 0x0A \<notin> set rest"
    by (simp_all add: version_shape_def Let_def split: if_splits)
  have "s = takeWhile is_digit s @ dropWhile is_digit s" by simp
  also have "\<dots> = major @ d # (takeWhile is_digit t @ dropWhile is_digit t)"
    using r parts(1) by simp
  finally show "s = major @ CHR ''.'' # minor @ rest"
    using parts by simp
  show "major = takeWhile is_digit s" by (rule parts)
  show "minor = takeWhile is_digit (tl (dropWhile is_digit s))" using parts r by simp
  show "major \<noteq> []" "minor \<noteq> []" "CHR 0x0A \<notin> set rest" by (rule parts)+
qed

lemma groups_versionRX: "NumSubexp versionRX = 1"
  by (simp add: NumSubexp_def versionRX_def)

lemma groups_spec_versionRX: "NumSubexp spec_versionRX = 1"
  by (simp add: NumSubexp_def spec_versionRX_def)

lemma FindStringSubmatch_versionRX:
  "FindStringSubmatch versionRX s =
     (case version_shape s of
        None \<Rightarrow> []
      | Some (major, minor, rest) \<Rightarrow> [s, major @ ''.'' @ [hd minor]])"
proof (cases "version_shape s")
  case None
  then have "\<not> shape_ok s" using version_shape_iff [of s] by simp
  then have "search versionRX 0 s = None"
    using search_at_begin [of "tl versionRX" s] run_versionRX [of s] by (simp add: versionRX_def)
  with None show ?thesis by (simp add: FindStringSubmatch_def)
next
  case (Some x)
  obtain major minor rest where x: "x = (major, minor, rest)" by (cases x)
  note parts = version_shape_parts [OF Some [unfolded x]]
  have ok: "shape_ok s" using version_shape_iff [of s] Some by simp
  have "search versionRX 0 s = Some [(0, 0), (2, 0), (3, length major + 2), (1, length s)]"
    using search_at_begin [of "tl versionRX" s] run_versionRX [of s] ok parts(2)
    by (simp add: versionRX_def)
  moreover have "take (length major + 2) s = major @ ''.'' @ [hd minor]"
    using parts(5) by (subst parts(1)) (cases minor, simp_all)
  ultimately show ?thesis
    using Some x by (simp add: FindStringSubmatch_def groups_versionRX)
qed

lemma FindStringSubmatch_spec_versionRX:
  "FindStringSubmatch spec_versionRX s =
     (case version_shape s of
        None \<Rightarrow> []
      | Some (major, minor, rest) \<Rightarrow> [s, major @ ''.'' @ minor])"
proof (cases "version_shape s")
  case None
  then have "\<not> shape_ok s" using version_shape_iff [of s] by simp
  then have "search spec_versionRX 0 s = None"
    using search_at_begin [of "tl spec_versionRX" s] run_spec_versionRX [of s]
    by (simp add: spec_versionRX_def)
  with None show ?thesis by (simp add: FindStringSubmatch_def)
next
  case (Some x)
  obtain major minor rest where x: "x = (major, minor, rest)" by (cases x)
  note parts = version_shape_parts [OF Some [unfolded x]]
  have ok: "shape_ok s" using version_shape_iff [of s] Some by simp
  have "search spec_versionRX 0 s =
      Some [(0, 0), (2, 0), (3, Suc (length major) + length minor), (1, length s)]"
    using search_at_begin [of "tl spec_versionRX" s] run_spec_versionRX [of s] ok parts(2,3)
    by (simp add: spec_versionRX_def)
  moreover have "take (Suc (length major) + length minor) s = major @ ''.'' @ minor"
    by (subst parts(1)) simp
  ultimately show ?thesis
    using Some x by (simp add: FindStringSubmatch_def groups_spec_versionRX)
qed

subsection \<open>Claims about the version string\<close>

lemma getVersion_ok:
  assumes "body_reply srv (length (calls c)) = Response (Some resp)"
    and "200 \<le> StatusCode resp" and "StatusCode resp \<le> 299"
    and "extractString resp = Returns version"
  shows "fst (getVersion srv c) =
     Returns (case version_shape version of
                None \<Rightarrow> version
              | Some (major, minor, rest) \<Rightarrow> major @ ''.'' @ [hd minor])"
  using assms
  by (simp add: getVersion_def DoAndGetResponseBody_def FindStringSubmatch_versionRX Let_def
      split: option.splits)

text \<open>
  C6, as stated, fails: the version string 3.10 matches \<^verbatim>\<open>^(\d+\.\d+).*$\<close> and its leading
  major.minor substring is 3.10, but \<^verbatim>\<open>getVersion\<close> returns 3.1.
\<close>

theorem getVersion_two_digit_minor:
  "FindStringSubmatch spec_versionRX ''3.10'' = [''3.10'', ''3.10'']
   \<and> fst (getVersion (sample_server [ok_response (quoted ''3.10'')] []) (sample_client []))
       = Returns ''3.1''"
  by code_simp

text \<open>
  C6, amended: for every version string the server returns (what \<^verbatim>\<open>extractString\<close> reads
  from a 2xx answer): it matches \<^verbatim>\<open>^(\d+\.\d+).*$\<close> exactly when it is digits \<open>major\<close>, a
  dot, digits \<open>minor\<close> and a rest without a line feed; \<^verbatim>\<open>getVersion\<close> then returns \<open>major\<close>,
  the dot and the first digit of \<open>minor\<close> only (its pattern is \<^verbatim>\<open>^(\d+?\.\d+?).*$\<close>, whose
  lazy repetition keeps one digit), which is the leading major.minor substring exactly
  when \<open>minor\<close> has one digit. For every string that does not match, \<^verbatim>\<open>getVersion\<close> returns
  the full string unchanged.
\<close>

theorem getVersion_major_minor:
  assumes "body_reply srv (length (calls c)) = Response (Some resp)"
    and "200 \<le> StatusCode resp" and "StatusCode resp \<le> 299"
    and "extractString resp = Returns version"
  shows "(FindStringSubmatch spec_versionRX version = [] \<longrightarrow>
            fst (getVersion srv c) = Returns version)
       \<and> (FindStringSubmatch spec_versionRX version \<noteq> [] \<longleftrightarrow> version_shape version \<noteq> None)
       \<and> (\<forall>major minor rest. version_shape version = Some (major, minor, rest) \<longrightarrow>
            version = major @ ''.'' @ minor @ rest
            \<and> FindStringSubmatch spec_versionRX version = [version, major @ ''.'' @ minor]
            \<and> fst (getVersion srv c) = Returns (major @ ''.'' @ [hd minor])
            \<and> (fst (getVersion srv c) = Returns (major @ ''.'' @ minor) \<longleftrightarrow> length minor = 1))"
proof (intro conjI allI impI)
  note gv = getVersion_ok [OF assms]
  show "(FindStringSubmatch spec_versionRX version \<noteq> []) = (version_shape version \<noteq> None)"
    by (simp add: FindStringSubmatch_spec_versionRX split: option.splits prod.splits)
  {
    assume "FindStringSubmatch spec_versionRX version = []"
    then have "version_shape version = None"
      by (simp add: FindStringSubmatch_spec_versionRX split: option.splits prod.splits)
    then show "fst (getVersion srv c) = Returns version"
      by (simp add: gv)
  }
  fix major minor rest
  assume sh: "version_shape version = Some (major, minor, rest)"
  note parts = version_shape_parts [OF sh]
  show "version = major @ ''.'' @ minor @ rest"
    using parts(1) by simp
  show "FindStringSubmatch spec_versionRX version = [version, major @ ''.'' @ minor]"
    by (simp add: FindStringSubmatch_spec_versionRX sh)
  show r: "fst (getVersion srv c) = Returns (major @ ''.'' @ [hd minor])"
    by (simp add: gv sh)
  show "fst (getVersion srv c) = Returns (major @ ''.'' @ minor) \<longleftrightarrow> length minor = 1"
    using parts(5) by (cases minor) (auto simp: r)
qed

theorem getVersion_major_minor_witness:
  "body_reply (sample_server [ok_response (quoted ''3.6.0.1'')] [])
       (length (calls (sample_client [])))
     = Response (Some \<lparr>StatusCode = 200, Body = Some (quoted ''3.6.0.1'')\<rparr>)
   \<and> extractString \<lparr>StatusCode = 200, Body = Some (quoted ''3.6.0.1'')\<rparr> = Returns ''3.6.0.1''
   \<and> version_shape ''3.6.0.1'' = Some (''3'', ''6'', ''.0.1'')
   \<and> FindStringSubmatch spec_versionRX ''3.6.0.1'' = [''3.6.0.1'', ''3.6'']
   \<and> fst (getVersion (sample_server [ok_response (quoted ''3.6.0.1'')] []) (sample_client []))
       = Returns ''3.6''
   \<and> body_reply (sample_server [ok_response (quoted ''R3.6'')] [])
       (length (calls (sample_client [])))
     = Response (Some \<lparr>StatusCode = 200, Body = Some (quoted ''R3.6'')\<rparr>)
   \<and> extractString \<lparr>StatusCode = 200, Body = Some (quoted ''R3.6'')\<rparr> = Returns ''R3.6''
   \<and> FindStringSubmatch spec_versionRX ''R3.6'' = []
   \<and> fst (getVersion (sample_server [ok_response (quoted ''R3.6'')] []) (sample_client []))
       = Returns ''R3.6''"
proof -
  let ?resp = "\<lambda>v. \<lparr>StatusCode = 200, Body = Some (quoted v)\<rparr>"
  have a: "body_reply (sample_server [ok_response (quoted v)] [])
      (length (calls (sample_client []))) = Response (Some (?resp v))" for v
    by (simp add: sample_server_def scripted_def ok_response_def sample_client_def
        updateHeaders_def)
  have lo: "200 \<le> StatusCode (?resp v)" and hi: "StatusCode (?resp v) \<le> 299" for v
    by simp_all
  have b1: "extractString (?resp ''3.6.0.1'') = Returns ''3.6.0.1''"
    by code_simp
  have b2: "extractString (?resp ''R3.6'') = Returns ''R3.6''"
    by code_simp
  have s1: "version_shape ''3.6.0.1'' = Some (''3'', ''6'', ''.0.1'')"
    by code_simp
  have s2: "FindStringSubmatch spec_versionRX ''R3.6'' = []"
    by code_simp
  show ?thesis
    using getVersion_major_minor [OF a lo hi b1] getVersion_major_minor [OF a lo hi b2]
      a [of "''3.6.0.1''"] a [of "''R3.6''"] b1 b2 s1 s2
    by simp
qed

subsection \<open>Authenticate, path by path\<close>

lemma login_client_simps [simp]:
  "api_token (login_client cfg c) = []"
  "calls (login_client cfg c) = calls c"
  "configConnect (login_client cfg c) = cfg\<lparr>Version := Version (configConnect c)\<rparr>"
  by (simp_all add: login_client_def SetToken_def)

lemma record_call_simps [simp]:
  "api_token (record_call m method uri hs b c) = api_token c"
  "configConnect (record_call m method uri hs b c) = configConnect c"
  "accHeader (record_call m method uri hs b c) = accHeader c"
  "conHeader (record_call m method uri hs b c) = conHeader c"
  "calls (record_call m method uri hs b c) =
     calls c @ [\<lparr>call_method = m, http_method = method, call_path = uri, call_headers = hs,
                 call_body = b, call_token = api_token c\<rparr>]"
  by (simp_all add: record_call_def)

lemma SetToken_simps [simp]:
  "api_token (SetToken t c) = t"
  "calls (SetToken t c) = calls c"
  "configConnect (SetToken t c) = configConnect c"
  "accHeader (SetToken t c) = accHeader c"
  "conHeader (SetToken t c) = conHeader c"
  by (simp_all add: SetToken_def)

text \<open>Authenticate begins with the login request, sent with the token cleared.\<close>

lemma Authenticate_unfold:
  "Authenticate srv cfg c =
     (let c1 = record_call ApiDoAndGetResponseBody MethodGet ''api/login''
                 (login_headers (cfg\<lparr>Version := Version (configConnect c)\<rparr>)) None (login_client cfg c)
      in case body_reply srv (length (calls c)) of
           Failed err \<Rightarrow> (Fails err, c1)
         | Response None \<Rightarrow> (Panics ''nil pointer dereference'', c1)
         | Response (Some resp) \<Rightarrow>
             if \<not> (StatusCode resp \<ge> 200 \<and> StatusCode resp \<le> 299)
             then (Fails (ParseJSONError srv resp), c1)
             else
               (case extractString resp of
                  Fails err \<Rightarrow> (Returns (), c1)
                | Panics p \<Rightarrow> (Panics p, c1)
                | Returns token \<Rightarrow>
                    if Version (configConnect c) = []
                    then (case updateVersion srv (SetToken token c1) of
                            (Fails err, c3) \<Rightarrow>
                              (Fails (ErrorString ''error getting version of ScaleIO''), c3)
                          | (Panics p, c3) \<Rightarrow> (Panics p, c3)
                          | (Returns u, c3) \<Rightarrow> (Returns (), c3))
                    else (Returns (), SetToken token c1)))"
  by (simp add: Authenticate_def DoAndGetResponseBody_def Let_def login_client_def login_headers_def
      SetToken_def record_call_def
      split: reply.splits option.splits outcome.splits)


lemma updateHeaders_simps [simp]:
  "api_token (updateHeaders v c) = api_token c"
  "calls (updateHeaders v c) = calls c"
  "configConnect (updateHeaders v c) = configConnect c"
  by (simp_all add: updateHeaders_def Let_def)

lemma getVersion_calls: "calls (snd (getVersion srv c)) = calls c @ [version_call (api_token c)]"
  by (simp add: getVersion_def DoAndGetResponseBody_def version_call_def Let_def
      split: reply.splits option.splits outcome.splits)

lemma getVersion_token: "api_token (snd (getVersion srv c)) = api_token c"
  by (simp add: getVersion_def DoAndGetResponseBody_def Let_def
      split: reply.splits option.splits outcome.splits)

lemma getVersion_fails_iff:
  "(\<exists>e. fst (getVersion srv c) = Fails e) \<longleftrightarrow>
     version_request_fails (body_reply srv (length (calls c)))"
  by (auto simp: getVersion_def DoAndGetResponseBody_def version_request_fails_def Let_def
      extractString_def
      split: reply.splits option.splits outcome.splits)

lemma updateVersion_calls:
  "calls (snd (updateVersion srv c)) = calls c @ [version_call (api_token c)]"
  using getVersion_calls [of srv c]
  by (cases "getVersion srv c") (simp add: updateVersion_def split: outcome.splits)

lemma updateVersion_token: "api_token (snd (updateVersion srv c)) = api_token c"
  using getVersion_token [of srv c]
  by (cases "getVersion srv c") (simp add: updateVersion_def split: outcome.splits)

lemma updateVersion_fails_iff:
  "(\<exists>e. fst (updateVersion srv c) = Fails e) \<longleftrightarrow>
     version_request_fails (body_reply srv (length (calls c)))"
  using getVersion_fails_iff [of srv c]
  by (cases "getVersion srv c") (auto simp: updateVersion_def split: outcome.splits)

lemma Authenticate_calls:
  "\<exists>more. calls (snd (Authenticate srv cfg c)) =
      calls c @ login_call (cfg\<lparr>Version := Version (configConnect c)\<rparr>) # more"
proof -
  define cfg' where "cfg' = cfg\<lparr>Version := Version (configConnect c)\<rparr>"
  define c1 where "c1 = record_call ApiDoAndGetResponseBody MethodGet ''api/login''
                 (login_headers cfg') None (login_client cfg c)"
  define goal where "goal r \<longleftrightarrow> (\<exists>more. calls (snd r) = calls c @ login_call cfg' # more)"
    for r :: "unit outcome \<times> client"
  have c1: "calls c1 = calls c @ [login_call cfg']"
    by (simp add: c1_def login_call_def)
  then have g1: "goal (x, c1)" for x
    by (simp add: goal_def)
  have g2: "goal (x, SetToken t c1)" for x t
    using c1 by (simp add: goal_def)
  have g3: "goal (case updateVersion srv (SetToken t c1) of
                    (Fails err, c3) \<Rightarrow> (Fails (ErrorString ''error getting version of ScaleIO''), c3)
                  | (Panics p, c3) \<Rightarrow> (Panics p, c3)
                  | (Returns u, c3) \<Rightarrow> (Returns (), c3))" for t
  proof (cases "updateVersion srv (SetToken t c1)")
    case (Pair r3 c3)
    with updateVersion_calls [of srv "SetToken t c1"]
    have "calls c3 = calls c @ [login_call cfg', version_call t]"
      by (simp add: c1)
    with Pair show ?thesis
      by (cases r3) (simp_all add: goal_def)
  qed
  have "goal (Authenticate srv cfg c)"
    unfolding Authenticate_unfold Let_def c1_def [symmetric] cfg'_def [symmetric]
    by (simp add: g1 g2 g3 split: reply.splits option.splits outcome.splits)
  then show ?thesis
    by (simp add: goal_def cfg'_def)
qed

lemma Authenticate_transport_fails:
  "body_reply srv (length (calls c)) = Failed err \<Longrightarrow>
   fst (Authenticate srv cfg c) = Fails err \<and> api_token (snd (Authenticate srv cfg c)) = []"
  by (simp add: Authenticate_unfold)

lemma Authenticate_status_fails:
  "body_reply srv (length (calls c)) = Response (Some resp) \<Longrightarrow>
   \<not> (200 \<le> StatusCode resp \<and> StatusCode resp \<le> 299) \<Longrightarrow>
   fst (Authenticate srv cfg c) = Fails (ParseJSONError srv resp) \<and>
   api_token (snd (Authenticate srv cfg c)) = []"
  by (simp add: Authenticate_unfold)

lemma Authenticate_version_fails:
  assumes "body_reply srv (length (calls c)) = Response (Some resp)"
    and "200 \<le> StatusCode resp" and "StatusCode resp \<le> 299"
    and "extractString resp = Returns token"
    and "Version (configConnect c) = []"
    and "version_request_fails (body_reply srv (Suc (length (calls c))))"
  shows "fst (Authenticate srv cfg c) = Fails (ErrorString ''error getting version of ScaleIO'') \<and>
         api_token (snd (Authenticate srv cfg c)) = token"
proof -
  let ?c2 = "SetToken token (record_call ApiDoAndGetResponseBody MethodGet ''api/login''
         (login_headers (cfg\<lparr>Version := Version (configConnect c)\<rparr>)) None (login_client cfg c))"
  have "\<exists>e. fst (updateVersion srv ?c2) = Fails e"
    using assms(6) by (simp add: updateVersion_fails_iff)
  then obtain e c3 where uv: "updateVersion srv ?c2 = (Fails e, c3)"
    by (cases "updateVersion srv ?c2") auto
  have "api_token c3 = token"
    using updateVersion_token [of srv ?c2] uv by simp
  with assms uv show ?thesis
    by (simp add: Authenticate_unfold Let_def)
qed

text \<open>The requests Authenticate sends: the login, and then at most the version request.\<close>

lemma Authenticate_new_calls:
  "new_calls c (snd (Authenticate srv cfg c)) = [login_call (cfg\<lparr>Version := Version (configConnect c)\<rparr>)]
   \<or> (\<exists>t. new_calls c (snd (Authenticate srv cfg c)) =
          [login_call (cfg\<lparr>Version := Version (configConnect c)\<rparr>), version_call t])"
proof -
  define cfg' where "cfg' = cfg\<lparr>Version := Version (configConnect c)\<rparr>"
  define c1 where "c1 = record_call ApiDoAndGetResponseBody MethodGet ''api/login''
                 (login_headers cfg') None (login_client cfg c)"
  define goal where "goal r \<longleftrightarrow>
      (new_calls c (snd r) = [login_call cfg'] \<or>
       (\<exists>t. new_calls c (snd r) = [login_call cfg', version_call t]))"
    for r :: "unit outcome \<times> client"
  have c1: "calls c1 = calls c @ [login_call cfg']"
    by (simp add: c1_def login_call_def)
  then have g1: "goal (x, c1)" for x
    by (simp add: goal_def new_calls_def)
  have g2: "goal (x, SetToken t c1)" for x t
    using c1 by (simp add: goal_def new_calls_def)
  have g3: "goal (case updateVersion srv (SetToken t c1) of
                    (Fails err, c3) \<Rightarrow> (Fails (ErrorString ''error getting version of ScaleIO''), c3)
                  | (Panics p, c3) \<Rightarrow> (Panics p, c3)
                  | (Returns u, c3) \<Rightarrow> (Returns (), c3))" for t
  proof (cases "updateVersion srv (SetToken t c1)")
    case (Pair r3 c3)
    with updateVersion_calls [of srv "SetToken t c1"]
    have "calls c3 = calls c @ [login_call cfg', version_call t]"
      by (simp add: c1)
    with Pair show ?thesis
      by (cases r3) (auto simp: goal_def new_calls_def)
  qed
  have "goal (Authenticate srv cfg c)"
    unfolding Authenticate_unfold Let_def c1_def [symmetric] cfg'_def [symmetric]
    by (simp add: g1 g2 g3 split: reply.splits option.splits outcome.splits)
  then show ?thesis
    by (simp add: goal_def cfg'_def)
qed

lemma Authenticate_calls_prefix:
  "calls (snd (Authenticate srv cfg c)) = calls c @ new_calls c (snd (Authenticate srv cfg c))"
  using Authenticate_calls [of srv cfg c] by (auto simp: new_calls_def)

lemma getVersion_returns_iff:
  "(\<exists>v. fst (getVersion srv c) = Returns v) \<longleftrightarrow>
     \<not> version_request_fails (body_reply srv (length (calls c))) \<and>
     body_reply srv (length (calls c)) \<noteq> Response None"
  by (auto simp: getVersion_def DoAndGetResponseBody_def version_request_fails_def Let_def
      extractString_def
      split: reply.splits option.splits outcome.splits)

lemma updateVersion_returns_iff:
  "fst (updateVersion srv c) = Returns () \<longleftrightarrow>
     \<not> version_request_fails (body_reply srv (length (calls c))) \<and>
     body_reply srv (length (calls c)) \<noteq> Response None"
  using getVersion_returns_iff [of srv c]
  by (cases "getVersion srv c") (auto simp: updateVersion_def split: outcome.splits)

text \<open>After a successful login the new token is stored, and the version request bears it.\<close>

lemma Authenticate_login_ok:
  assumes "body_reply srv (length (calls c)) = Response (Some resp)"
    and "200 \<le> StatusCode resp" and "StatusCode resp \<le> 299"
    and "extractString resp = Returns token"
  shows "api_token (snd (Authenticate srv cfg c)) = token"
    and "Version (configConnect c) \<noteq> [] \<Longrightarrow>
         fst (Authenticate srv cfg c) = Returns () \<and>
         new_calls c (snd (Authenticate srv cfg c)) =
           [login_call (cfg\<lparr>Version := Version (configConnect c)\<rparr>)]"
    and "Version (configConnect c) = [] \<Longrightarrow>
         new_calls c (snd (Authenticate srv cfg c)) =
           [login_call (cfg\<lparr>Version := Version (configConnect c)\<rparr>), version_call token]"
    and "Version (configConnect c) = [] \<Longrightarrow>
         \<not> version_request_fails (body_reply srv (Suc (length (calls c)))) \<Longrightarrow>
         body_reply srv (Suc (length (calls c))) \<noteq> Response None \<Longrightarrow>
         fst (Authenticate srv cfg c) = Returns ()"
proof -
  define cfg' where "cfg' = cfg\<lparr>Version := Version (configConnect c)\<rparr>"
  define c1 where "c1 = record_call ApiDoAndGetResponseBody MethodGet ''api/login''
                 (login_headers cfg') None (login_client cfg c)"
  have c1: "calls c1 = calls c @ [login_call cfg']" "api_token c1 = []"
    by (simp_all add: c1_def login_call_def)
  have A: "Authenticate srv cfg c =
      (if Version (configConnect c) = []
       then (case updateVersion srv (SetToken token c1) of
               (Fails err, c3) \<Rightarrow> (Fails (ErrorString ''error getting version of ScaleIO''), c3)
             | (Panics p, c3) \<Rightarrow> (Panics p, c3)
             | (Returns u, c3) \<Rightarrow> (Returns (), c3))
       else (Returns (), SetToken token c1))"
    unfolding Authenticate_unfold Let_def c1_def [symmetric] cfg'_def [symmetric]
    using assms by simp
  obtain r3 c3 where uv: "updateVersion srv (SetToken token c1) = (r3, c3)"
    by (cases "updateVersion srv (SetToken token c1)")
  have c3: "calls c3 = calls c @ [login_call cfg', version_call token]" "api_token c3 = token"
    using updateVersion_calls [of srv "SetToken token c1"]
      updateVersion_token [of srv "SetToken token c1"] uv
    by (simp_all add: c1)
  show "api_token (snd (Authenticate srv cfg c)) = token"
    using uv c3 by (cases r3) (simp_all add: A)
  show "fst (Authenticate srv cfg c) = Returns () \<and>
         new_calls c (snd (Authenticate srv cfg c)) =
           [login_call (cfg\<lparr>Version := Version (configConnect c)\<rparr>)]"
    if "Version (configConnect c) \<noteq> []"
    using that c1 by (simp add: A new_calls_def cfg'_def)
  show "new_calls c (snd (Authenticate srv cfg c)) =
           [login_call (cfg\<lparr>Version := Version (configConnect c)\<rparr>), version_call token]"
    if "Version (configConnect c) = []"
    using that uv c3 by (cases r3) (simp_all add: A new_calls_def cfg'_def)
  show "fst (Authenticate srv cfg c) = Returns ()"
    if "Version (configConnect c) = []"
      and "\<not> version_request_fails (body_reply srv (Suc (length (calls c))))"
      and "body_reply srv (Suc (length (calls c))) \<noteq> Response None"
  proof -
    have "fst (updateVersion srv (SetToken token c1)) = Returns ()"
      using that(2,3) by (simp add: updateVersion_returns_iff c1)
    with uv that(1) show ?thesis
      by (simp add: A)
  qed
qed

text \<open>
  C3, as stated, fails: when the login succeeds and the version request that follows
  fails, \<^verbatim>\<open>Authenticate\<close> returns an error while the token is the new one, not the empty
  string. Here the client has no version yet, the login is answered with the token
  tok and the version request is refused.
\<close>

theorem Authenticate_keeps_new_token_when_version_fails:
  "Version (configConnect (sample_client [])) = []
   \<and> fst (Authenticate (sample_server [ok_response (quoted ''tok'')] [])
         (configConnect (sample_client [])) (sample_client []))
       = Fails (ErrorString ''error getting version of ScaleIO'')
   \<and> api_token (snd (Authenticate (sample_server [ok_response (quoted ''tok'')] [])
         (configConnect (sample_client [])) (sample_client []))) = ''tok''"
  by code_simp

text \<open>
  C3, amended: for every invocation of \<^verbatim>\<open>Authenticate\<close>, the stored token is set to the
  empty string before the login request is sent: the first request it sends is the
  login request, bearing the empty token. If the login request fails in transport, or
  is answered with a status outside 200 to 299, the token remains empty and a non-nil
  error is returned (the transport error, or the error parsed from the response). If
  the login succeeds (a status in 200 to 299 and a body that is read without error),
  the new token is stored before the version is queried: the
  token is the new one when \<^verbatim>\<open>Authenticate\<close> ends, whatever happens to the version; a
  client that has a version sends no further request and gets a nil error; a client
  that has none sends exactly one more request, the version request, bearing the new
  token, and gets a nil error when that request is answered well. When the client has
  no version and the version request fails, \<^verbatim>\<open>Authenticate\<close> returns the non-nil error
  "error getting version of ScaleIO" and the new token stays stored.
\<close>

theorem Authenticate_token_paths:
  "length (calls c) < length (calls (snd (Authenticate srv cfg c)))
   \<and> take (length (calls c)) (calls (snd (Authenticate srv cfg c))) = calls c
   \<and> calls (snd (Authenticate srv cfg c)) ! length (calls c) =
       \<lparr>call_method = ApiDoAndGetResponseBody, http_method = ''GET'', call_path = ''api/login'',
        call_headers = [(''Authorization'', ''Basic '' @ basicAuth (Username cfg) (Password cfg))],
        call_body = None, call_token = []\<rparr>
   \<and> (body_reply srv (length (calls c)) = Failed err \<longrightarrow>
        fst (Authenticate srv cfg c) = Fails err \<and>
        api_token (snd (Authenticate srv cfg c)) = [])
   \<and> (body_reply srv (length (calls c)) = Response (Some resp) \<and>
       \<not> (200 \<le> StatusCode resp \<and> StatusCode resp \<le> 299) \<longrightarrow>
        fst (Authenticate srv cfg c) = Fails (ParseJSONError srv resp) \<and>
        api_token (snd (Authenticate srv cfg c)) = [])
   \<and> (body_reply srv (length (calls c)) = Response (Some resp) \<and>
       200 \<le> StatusCode resp \<and> StatusCode resp \<le> 299 \<and>
       extractString resp = Returns token \<and> Version (configConnect c) = [] \<and>
       version_request_fails (body_reply srv (Suc (length (calls c)))) \<longrightarrow>
        fst (Authenticate srv cfg c) = Fails (ErrorString ''error getting version of ScaleIO'') \<and>
        api_token (snd (Authenticate srv cfg c)) = token)
   \<and> (body_reply srv (length (calls c)) = Response (Some resp) \<and>
       200 \<le> StatusCode resp \<and> StatusCode resp \<le> 299 \<and>
       extractString resp = Returns token \<longrightarrow>
        api_token (snd (Authenticate srv cfg c)) = token \<and>
        (Version (configConnect c) \<noteq> [] \<longrightarrow>
           fst (Authenticate srv cfg c) = Returns () \<and>
           length (calls (snd (Authenticate srv cfg c))) = Suc (length (calls c))) \<and>
        (Version (configConnect c) = [] \<longrightarrow>
           length (calls (snd (Authenticate srv cfg c))) = Suc (Suc (length (calls c))) \<and>
           calls (snd (Authenticate srv cfg c)) ! Suc (length (calls c)) =
             \<lparr>call_method = ApiDoAndGetResponseBody, http_method = ''GET'',
              call_path = ''/api/version'', call_headers = [], call_body = None,
              call_token = token\<rparr> \<and>
           (\<not> version_request_fails (body_reply srv (Suc (length (calls c)))) \<and>
            body_reply srv (Suc (length (calls c))) \<noteq> Response None \<longrightarrow>
              fst (Authenticate srv cfg c) = Returns ())))"
proof -
  obtain more where more: "calls (snd (Authenticate srv cfg c)) =
      calls c @ login_call (cfg\<lparr>Version := Version (configConnect c)\<rparr>) # more"
    using Authenticate_calls [of srv cfg c] by blast
  have "calls (snd (Authenticate srv cfg c)) ! length (calls c) =
      login_call (cfg\<lparr>Version := Version (configConnect c)\<rparr>)"
    by (simp add: more)
  then have login: "calls (snd (Authenticate srv cfg c)) ! length (calls c) =
       \<lparr>call_method = ApiDoAndGetResponseBody, http_method = ''GET'', call_path = ''api/login'',
        call_headers = [(''Authorization'', ''Basic '' @ basicAuth (Username cfg) (Password cfg))],
        call_body = None, call_token = []\<rparr>"
    by (simp add: login_call_def login_headers_def MethodGet_def)
  have grows: "length (calls c) < length (calls (snd (Authenticate srv cfg c)))"
    and keeps: "take (length (calls c)) (calls (snd (Authenticate srv cfg c))) = calls c"
    by (simp_all add: more)
  have ok: "api_token (snd (Authenticate srv cfg c)) = token \<and>
        (Version (configConnect c) \<noteq> [] \<longrightarrow>
           fst (Authenticate srv cfg c) = Returns () \<and>
           length (calls (snd (Authenticate srv cfg c))) = Suc (length (calls c))) \<and>
        (Version (configConnect c) = [] \<longrightarrow>
           length (calls (snd (Authenticate srv cfg c))) = Suc (Suc (length (calls c))) \<and>
           calls (snd (Authenticate srv cfg c)) ! Suc (length (calls c)) =
             \<lparr>call_method = ApiDoAndGetResponseBody, http_method = ''GET'',
              call_path = ''/api/version'', call_headers = [], call_body = None,
              call_token = token\<rparr> \<and>
           (\<not> version_request_fails (body_reply srv (Suc (length (calls c)))) \<and>
            body_reply srv (Suc (length (calls c))) \<noteq> Response None \<longrightarrow>
              fst (Authenticate srv cfg c) = Returns ()))"
    if h: "body_reply srv (length (calls c)) = Response (Some resp) \<and>
       200 \<le> StatusCode resp \<and> StatusCode resp \<le> 299 \<and>
       extractString resp = Returns token"
  proof -
    from h have a: "body_reply srv (length (calls c)) = Response (Some resp)"
      and lo: "200 \<le> StatusCode resp" and hi: "StatusCode resp \<le> 299"
      and ex: "extractString resp = Returns token"
      by simp_all
    note lk = Authenticate_login_ok [OF a lo hi ex, of cfg]
    note pre = Authenticate_calls_prefix [of srv cfg c]
    have one: "length (calls (snd (Authenticate srv cfg c))) = Suc (length (calls c))"
      if "Version (configConnect c) \<noteq> []"
      using lk(2) [OF that] by (subst pre) simp
    have two: "length (calls (snd (Authenticate srv cfg c))) = Suc (Suc (length (calls c)))"
      and ver: "calls (snd (Authenticate srv cfg c)) ! Suc (length (calls c)) =
             \<lparr>call_method = ApiDoAndGetResponseBody, http_method = ''GET'',
              call_path = ''/api/version'', call_headers = [], call_body = None,
              call_token = token\<rparr>"
      if "Version (configConnect c) = []"
      using lk(3) [OF that]
      by (subst pre, simp, subst pre, simp add: nth_append version_call_def MethodGet_def)
    show ?thesis
      using lk(1) lk(2) lk(4) one two ver by blast
  qed
  show ?thesis
    using Authenticate_transport_fails [of srv c err cfg]
      Authenticate_status_fails [of srv c resp cfg]
      Authenticate_version_fails [of srv c resp token cfg]
    by (intro conjI grows keeps login impI ok) simp_all
qed

theorem Authenticate_token_paths_witness:
  "body_reply (sample_server [] []) (length (calls (sample_client ''3.6'')))
     = Failed (OtherError ''connection refused'')
   \<and> fst (Authenticate (sample_server [] []) (configConnect (sample_client ''3.6''))
         (sample_client ''3.6'')) = Fails (OtherError ''connection refused'')
   \<and> api_token (snd (Authenticate (sample_server [] []) (configConnect (sample_client ''3.6''))
         (sample_client ''3.6''))) = []
   \<and> body_reply (sample_server [status_response 401] []) (length (calls (sample_client ''3.6'')))
     = Response (Some \<lparr>StatusCode = 401, Body = Some []\<rparr>)
   \<and> fst (Authenticate (sample_server [status_response 401] [])
         (configConnect (sample_client ''3.6'')) (sample_client ''3.6''))
       = Fails (TypesError 401 ''error'')
   \<and> api_token (snd (Authenticate (sample_server [status_response 401] [])
         (configConnect (sample_client ''3.6'')) (sample_client ''3.6''))) = []
   \<and> body_reply (sample_server [ok_response (quoted ''tok'')] [])
         (length (calls (sample_client [])))
     = Response (Some \<lparr>StatusCode = 200, Body = Some (quoted ''tok'')\<rparr>)
   \<and> extractString \<lparr>StatusCode = 200, Body = Some (quoted ''tok'')\<rparr> = Returns ''tok''
   \<and> Version (configConnect (sample_client [])) = []
   \<and> version_request_fails (body_reply (sample_server [ok_response (quoted ''tok'')] [])
         (Suc (length (calls (sample_client [])))))
   \<and> api_token (snd (Authenticate (sample_server [ok_response (quoted ''tok'')] [])
         (configConnect (sample_client [])) (sample_client []))) = ''tok''
   \<and> api_token (sample_client []) = ''stale''
   \<and> Version (configConnect (sample_client ''3.6'')) \<noteq> []
   \<and> fst (Authenticate (sample_server [ok_response (quoted ''tok'')] [])
         (configConnect (sample_client ''3.6'')) (sample_client ''3.6'')) = Returns ()
   \<and> api_token (snd (Authenticate (sample_server [ok_response (quoted ''tok'')] [])
         (configConnect (sample_client ''3.6'')) (sample_client ''3.6''))) = ''tok''
   \<and> length (calls (snd (Authenticate (sample_server [ok_response (quoted ''tok'')] [])
         (configConnect (sample_client ''3.6'')) (sample_client ''3.6'')))) = 1
   \<and> \<not> version_request_fails (body_reply
         (sample_server [ok_response (quoted ''tok''), ok_response (quoted ''3.6.0.1'')] [])
         (Suc (length (calls (sample_client [])))))
   \<and> body_reply (sample_server [ok_response (quoted ''tok''), ok_response (quoted ''3.6.0.1'')] [])
         (Suc (length (calls (sample_client [])))) \<noteq> Response None
   \<and> fst (Authenticate
         (sample_server [ok_response (quoted ''tok''), ok_response (quoted ''3.6.0.1'')] [])
         (configConnect (sample_client [])) (sample_client [])) = Returns ()
   \<and> api_token (snd (Authenticate
         (sample_server [ok_response (quoted ''tok''), ok_response (quoted ''3.6.0.1'')] [])
         (configConnect (sample_client [])) (sample_client []))) = ''tok''
   \<and> call_token (calls (snd (Authenticate
         (sample_server [ok_response (quoted ''tok''), ok_response (quoted ''3.6.0.1'')] [])
         (configConnect (sample_client [])) (sample_client []))) ! 1) = ''tok''
   \<and> call_path (calls (snd (Authenticate
         (sample_server [ok_response (quoted ''tok''), ok_response (quoted ''3.6.0.1'')] [])
         (configConnect (sample_client [])) (sample_client []))) ! 1) = ''/api/version''"
proof -
  have cl: "calls (sample_client v) = []" "Version (configConnect (sample_client v)) = v"
    "api_token (sample_client v) = ''stale''" for v
    by (simp_all add: sample_client_def updateHeaders_def Let_def)
  have r1: "body_reply (sample_server [] []) 0 = Failed (OtherError ''connection refused'')"
    by (simp add: sample_server_def scripted_def)
  have r2: "body_reply (sample_server [status_response 401] []) 0
      = Response (Some \<lparr>StatusCode = 401, Body = Some []\<rparr>)"
    by (simp add: sample_server_def scripted_def status_response_def)
  have r3: "body_reply (sample_server [ok_response (quoted ''tok'')] []) 0
      = Response (Some \<lparr>StatusCode = 200, Body = Some (quoted ''tok'')\<rparr>)"
    "version_request_fails (body_reply (sample_server [ok_response (quoted ''tok'')] []) (Suc 0))"
    by (simp_all add: sample_server_def scripted_def ok_response_def version_request_fails_def)
  have ex: "extractString \<lparr>StatusCode = 200, Body = Some (quoted ''tok'')\<rparr> = Returns ''tok''"
    by code_simp
  have pje: "ParseJSONError (sample_server bs js) resp = TypesError (StatusCode resp) ''error''"
    for bs js resp
    by (simp add: sample_server_def)
  have r4: "body_reply (sample_server [ok_response (quoted ''tok''), ok_response (quoted v)] []) 0
      = Response (Some \<lparr>StatusCode = 200, Body = Some (quoted ''tok'')\<rparr>)"
    "\<not> version_request_fails
        (body_reply (sample_server [ok_response (quoted ''tok''), ok_response (quoted v)] []) (Suc 0))"
    "body_reply (sample_server [ok_response (quoted ''tok''), ok_response (quoted v)] []) (Suc 0)
      \<noteq> Response None" for v
    by (simp_all add: sample_server_def scripted_def ok_response_def version_request_fails_def)
  note t1 = Authenticate_token_paths [of "sample_client ''3.6''" "sample_server [] []"
        "configConnect (sample_client ''3.6'')" "OtherError ''connection refused''"]
  note t2 = Authenticate_token_paths [of "sample_client ''3.6''"
        "sample_server [status_response 401] []"
        "configConnect (sample_client ''3.6'')" _ "\<lparr>StatusCode = 401, Body = Some []\<rparr>"]
  note t3 = Authenticate_token_paths [of "sample_client []"
        "sample_server [ok_response (quoted ''tok'')] []"
        "configConnect (sample_client [])" _
        "\<lparr>StatusCode = 200, Body = Some (quoted ''tok'')\<rparr>" "''tok''"]
  note t4 = Authenticate_token_paths [of "sample_client ''3.6''"
        "sample_server [ok_response (quoted ''tok'')] []"
        "configConnect (sample_client ''3.6'')" _
        "\<lparr>StatusCode = 200, Body = Some (quoted ''tok'')\<rparr>" "''tok''"]
  note t5 = Authenticate_token_paths [of "sample_client []"
        "sample_server [ok_response (quoted ''tok''), ok_response (quoted ''3.6.0.1'')] []"
        "configConnect (sample_client [])" _
        "\<lparr>StatusCode = 200, Body = Some (quoted ''tok'')\<rparr>" "''tok''"]
  show ?thesis
    using t1 t2 t3 t4 t5
    by (simp add: cl r1 r2 r3 r4 ex pje)
qed

subsection \<open>The dispatchers, path by path\<close>

lemma getJSONWithRetry_first_ok:
  "jr (length (calls c)) = Decoded v \<Longrightarrow>
   getJSONWithRetry srv jr m uri b c =
     (Returns v, record_call ApiDoWithHeaders m uri (request_headers srv b c) b c)"
  by (simp add: getJSONWithRetry_def DoWithHeaders_def Let_def)

lemma getJSONWithRetry_other_error:
  "jr (length (calls c)) = Refused err \<Longrightarrow> (\<forall>msg. err \<noteq> TypesError 401 msg) \<Longrightarrow>
   getJSONWithRetry srv jr m uri b c =
     (Fails err, record_call ApiDoWithHeaders m uri (request_headers srv b c) b c)"
  by (cases err) (simp_all add: getJSONWithRetry_def DoWithHeaders_def Let_def)

lemma getJSONWithRetry_on_401:
  assumes "jr (length (calls c)) = Refused (TypesError 401 msg)"
  shows "getJSONWithRetry srv jr m uri b c =
     (let hs = request_headers srv b c;
          c1 = record_call ApiDoWithHeaders m uri hs b c
      in case Authenticate srv (configConnect c) c1 of
           (Fails e, c2) \<Rightarrow> (Fails (Errorf ''Error Authenticating: '' e), c2)
         | (Panics p, c2) \<Rightarrow> (Panics p, c2)
         | (Returns u, c2) \<Rightarrow>
             (case jr (length (calls c2)) of
                Decoded v \<Rightarrow> Returns v
              | Refused e2 \<Rightarrow> Fails e2,
              record_call ApiDoWithHeaders m uri hs b c2))"
  using assms
  by (simp add: getJSONWithRetry_def DoWithHeaders_def Let_def
      split: prod.splits outcome.splits json_reply.splits)

lemma getStringWithRetry_on_401:
  assumes "body_reply srv (length (calls c)) = Response (Some resp)" and "StatusCode resp = 401"
  shows "getStringWithRetry srv m uri b c =
     (let hs = request_headers srv b c;
          c1 = record_call ApiDoAndGetResponseBody m uri hs b c
      in case Authenticate srv (configConnect c) c1 of
           (Fails e, c2) \<Rightarrow> (Fails (Errorf ''Error Authenticating: '' e), c2)
         | (Panics p, c2) \<Rightarrow> (Panics p, c2)
         | (Returns u, c2) \<Rightarrow>
             (case body_reply srv (length (calls c2)) of
                Failed err \<Rightarrow> Fails err
              | Response None \<Rightarrow> Panics ''nil pointer dereference''
              | Response (Some resp2) \<Rightarrow>
                  if StatusCode resp2 \<ge> 200 \<and> StatusCode resp2 \<le> 299
                  then (case extractString resp2 of Returns s \<Rightarrow> Returns s | _ \<Rightarrow> Returns [])
                  else Returns [],
              record_call ApiDoAndGetResponseBody m uri hs b c2))"
  using assms
  by (simp add: getStringWithRetry_def DoAndGetResponseBody_def checkResponse_def Let_def
      extractString_def
      split: prod.splits outcome.splits reply.splits option.splits)

text \<open>
  After a first answer 401 and a re-authentication that returns nil,
  \<^verbatim>\<open>getStringWithRetry\<close> returns a nil error whatever the status of the second answer.
\<close>

lemma getStringWithRetry_retry_never_fails_on_status:
  assumes "body_reply srv (length (calls c)) = Response (Some resp)" and "StatusCode resp = 401"
    and "Authenticate srv (configConnect c)
           (record_call ApiDoAndGetResponseBody m uri (request_headers srv b c) b c) = (Returns (), c2)"
    and "body_reply srv (length (calls c2)) = Response (Some resp2)"
  shows "\<exists>s. fst (getStringWithRetry srv m uri b c) = Returns s"
  using assms(3,4)
  by (simp add: getStringWithRetry_on_401 [OF assms(1,2)] Let_def split: outcome.splits)

text \<open>
  The requests a dispatcher sends when the first answer is 401: the request, the
  requests of one \<^verbatim>\<open>Authenticate\<close>, and the request once more if and only if
  \<^verbatim>\<open>Authenticate\<close> returned a nil error.
\<close>

lemma getJSONWithRetry_401_requests:
  assumes "jr (length (calls c)) = Refused (TypesError 401 msg)"
    and "c1 = record_call ApiDoWithHeaders m uri (request_headers srv b c) b c"
    and "Authenticate srv (configConnect c) c1 = (a, c2)"
  shows "new_calls c (snd (getJSONWithRetry srv jr m uri b c)) =
     request_call ApiDoWithHeaders srv m uri b c (api_token c) # new_calls c1 c2 @
     (case a of Returns u \<Rightarrow> [request_call ApiDoWithHeaders srv m uri b c (api_token c2)] | _ \<Rightarrow> [])"
proof -
  have c1: "calls c1 = calls c @ [request_call ApiDoWithHeaders srv m uri b c (api_token c)]"
    by (simp add: assms(2) request_call_def)
  have c2: "calls c2 = calls c1 @ new_calls c1 c2"
    using Authenticate_calls_prefix [of srv "configConnect c" c1] assms(3) by simp
  show ?thesis
    using assms(3)
    by (cases a)
      (simp_all add: getJSONWithRetry_on_401 [of jr c msg srv m uri b, OF assms(1)] Let_def assms(2) [symmetric]
        new_calls_def [of c] c2 c1 request_call_def)
qed

lemma getStringWithRetry_401_requests:
  assumes "body_reply srv (length (calls c)) = Response (Some resp)" and "StatusCode resp = 401"
    and "c1 = record_call ApiDoAndGetResponseBody m uri (request_headers srv b c) b c"
    and "Authenticate srv (configConnect c) c1 = (a, c2)"
  shows "new_calls c (snd (getStringWithRetry srv m uri b c)) =
     request_call ApiDoAndGetResponseBody srv m uri b c (api_token c) # new_calls c1 c2 @
     (case a of Returns u \<Rightarrow> [request_call ApiDoAndGetResponseBody srv m uri b c (api_token c2)]
      | _ \<Rightarrow> [])"
proof -
  have c1: "calls c1 = calls c @ [request_call ApiDoAndGetResponseBody srv m uri b c (api_token c)]"
    by (simp add: assms(3) request_call_def)
  have c2: "calls c2 = calls c1 @ new_calls c1 c2"
    using Authenticate_calls_prefix [of srv "configConnect c" c1] assms(4) by simp
  show ?thesis
    using assms(4)
    by (cases a)
      (simp_all add: getStringWithRetry_on_401 [OF assms(1,2)] Let_def assms(3) [symmetric]
        new_calls_def [of c] c2 c1 request_call_def)
qed

subsection \<open>Claims about the dispatchers\<close>

text \<open>
  C1, evaluated where the code departs from it. The server answers the request with
  401, the login with the token tok, and the retried request with 401 again; the
  client has the version 3.6, so no version request is made. \<^verbatim>\<open>getStringWithRetry\<close> sends
  the request, the login and the request once more, and no fourth request, but then
  returns the empty string with a nil error: the error of the second \<^verbatim>\<open>checkResponse\<close> is
  assigned and never returned. On the same answers \<^verbatim>\<open>getJSONWithRetry\<close> returns the 401
  error of the retried call.
\<close>

theorem getStringWithRetry_second_401_returns_nil:
  "fst (getStringWithRetry
          (sample_server [status_response 401, ok_response (quoted ''tok''), status_response 401] [])
          ''GET'' ''/api/types/Volume/instances'' None (sample_client ''3.6'')) = Returns []
   \<and> map call_path (calls (snd (getStringWithRetry
          (sample_server [status_response 401, ok_response (quoted ''tok''), status_response 401] [])
          ''GET'' ''/api/types/Volume/instances'' None (sample_client ''3.6''))))
       = [''/api/types/Volume/instances'', ''api/login'', ''/api/types/Volume/instances'']
   \<and> map call_token (calls (snd (getStringWithRetry
          (sample_server [status_response 401, ok_response (quoted ''tok''), status_response 401] [])
          ''GET'' ''/api/types/Volume/instances'' None (sample_client ''3.6''))))
       = [''stale'', [], ''tok'']
   \<and> fst (getJSONWithRetry
          (sample_server [status_response 401, ok_response (quoted ''tok''), status_response 401]
             [Refused (TypesError 401 ''Unauthorized''), Refused (OtherError ''unused''),
              Refused (TypesError 401 ''Unauthorized'')])
          (sdc_reply (sample_server
             [status_response 401, ok_response (quoted ''tok''), status_response 401]
             [Refused (TypesError 401 ''Unauthorized''), Refused (OtherError ''unused''),
              Refused (TypesError 401 ''Unauthorized'')]))
          ''GET'' ''/api/types/Volume/instances'' None (sample_client ''3.6''))
       = Fails (TypesError 401 ''Unauthorized'')"
  by code_simp

subsection \<open>Claims about the facades\<close>

text \<open>
  C9: whenever the dispatcher call of \<^verbatim>\<open>GetSdcById\<close>, or of \<^verbatim>\<open>ChangeSdcName\<close>, returns an
  error, the function returns a wrapper built around the zero value of \<^verbatim>\<open>types.Sdc\<close>
  together with a nil error: the error is not passed on to the caller.
\<close>

theorem sdc_facades_swallow_errors:
  "(fst (getJSONWithRetry srv (sdc_reply srv) MethodGet (''api/instances/Sdc::'' @ ident) None c)
      = Fails err \<longrightarrow>
    fst (GetSdcById srv s ident c) = Returns (NewSdc (sys_client s) zero_Sdc))
   \<and> (fst (getJSONWithRetry srv (sdc_reply srv) MethodPost
          (''/api/instances/Sdc::'' @ idOfSdc @ ''/action/setSdcName'')
          (Some (ChangeSdcNameParam name)) c) = Fails err' \<longrightarrow>
    fst (ChangeSdcName srv s idOfSdc name c) = Returns (NewSdc (sys_client s) zero_Sdc))"
  by (auto simp: GetSdcById_def ChangeSdcName_def Let_def split: prod.splits outcome.splits)

theorem sdc_facades_swallow_errors_witness:
  "fst (getJSONWithRetry (sample_server [] []) (sdc_reply (sample_server [] [])) MethodGet
         (''api/instances/Sdc::'' @ ''c0ffee'') None (sample_client ''3.6''))
     = Fails (OtherError ''connection refused'')
   \<and> fst (GetSdcById (sample_server [] []) sample_system ''c0ffee'' (sample_client ''3.6''))
     = Returns \<lparr>Sdc = \<lparr>Sdc_ID = [], Sdc_Name = []\<rparr>, sdc_client = 1\<rparr>
   \<and> fst (getJSONWithRetry (sample_server [] []) (sdc_reply (sample_server [] [])) MethodPost
         (''/api/instances/Sdc::'' @ ''c0ffee'' @ ''/action/setSdcName'')
         (Some (ChangeSdcNameParam ''host1'')) (sample_client ''3.6''))
     = Fails (OtherError ''connection refused'')
   \<and> fst (ChangeSdcName (sample_server [] []) sample_system ''c0ffee'' ''host1''
         (sample_client ''3.6''))
     = Returns \<lparr>Sdc = \<lparr>Sdc_ID = [], Sdc_Name = []\<rparr>, sdc_client = 1\<rparr>"
proof -
  have g: "fst (getJSONWithRetry (sample_server [] []) (sdc_reply (sample_server [] [])) MethodGet
         (''api/instances/Sdc::'' @ ''c0ffee'') None (sample_client ''3.6''))
     = Fails (OtherError ''connection refused'')"
    by code_simp
  have p: "fst (getJSONWithRetry (sample_server [] []) (sdc_reply (sample_server [] [])) MethodPost
         (''/api/instances/Sdc::'' @ ''c0ffee'' @ ''/action/setSdcName'')
         (Some (ChangeSdcNameParam ''host1'')) (sample_client ''3.6''))
     = Fails (OtherError ''connection refused'')"
    by code_simp
  show ?thesis
    using sdc_facades_swallow_errors [of "sample_server [] []" "''c0ffee''" "sample_client ''3.6''"
        "OtherError ''connection refused''" sample_system "''c0ffee''" "''host1''"
        "OtherError ''connection refused''"] g p
    by (simp add: NewSdc_def zero_Sdc_def sample_system_def)
qed

lemma find_in_pds_href:
  "href \<noteq> [] \<Longrightarrow> find_in_pds (Some pd # pds) ident name href = Returns pd"
  by simp

lemma GetProtectionDomain_href:
  assumes "href \<noteq> []" and "fst (GetProtectionDomain srv s href c) = Returns pds"
  shows "\<exists>pd. pds = [Some pd] \<and>
     fst (getJSONWithRetry srv (pd_reply srv) MethodGet href None c) = Returns pd"
  using assms
  by (auto simp: GetProtectionDomain_def split: prod.splits outcome.splits)

text \<open>
  C10: for every call of \<^verbatim>\<open>FindProtectionDomain\<close> with a non-empty \<^verbatim>\<open>href\<close> whose fetch
  succeeds with a non-empty list, the first protection domain of the list is returned
  with no error, whatever the \<^verbatim>\<open>id\<close> and \<^verbatim>\<open>name\<close> arguments are.
\<close>

theorem FindProtectionDomain_href_returns_first:
  assumes "href \<noteq> []" and "fst (GetProtectionDomain srv s href c) = Returns pds" and "pds \<noteq> []"
  shows "\<exists>pd. hd pds = Some pd \<and> fst (FindProtectionDomain srv s ident name href c) = Returns pd"
proof -
  from GetProtectionDomain_href [OF assms(1,2)] obtain pd where pd: "pds = [Some pd]"
    by blast
  with assms(1,2) have "fst (FindProtectionDomain srv s ident name href c) = Returns pd"
    by (cases "GetProtectionDomain srv s href c") (simp add: FindProtectionDomain_def)
  with pd show ?thesis by simp
qed

theorem FindProtectionDomain_href_returns_first_witness:
  "''/api/instances/ProtectionDomain::5a1b'' \<noteq> []
   \<and> fst (GetProtectionDomain ((sample_server [] [])\<lparr>pd_reply := (\<lambda>n. Decoded sample_pd)\<rparr>)
         sample_system ''/api/instances/ProtectionDomain::5a1b'' (sample_client ''3.6''))
       = Returns [Some sample_pd]
   \<and> fst (FindProtectionDomain ((sample_server [] [])\<lparr>pd_reply := (\<lambda>n. Decoded sample_pd)\<rparr>)
         sample_system ''ffff'' ''other'' ''/api/instances/ProtectionDomain::5a1b''
         (sample_client ''3.6''))
       = Returns sample_pd
   \<and> PD_ID sample_pd \<noteq> ''ffff'' \<and> PD_Name sample_pd \<noteq> ''other''"
proof -
  let ?srv = "(sample_server [] [])\<lparr>pd_reply := (\<lambda>n. Decoded sample_pd)\<rparr>"
  let ?href = "''/api/instances/ProtectionDomain::5a1b''"
  have h: "?href \<noteq> []" by simp
  have g: "fst (GetProtectionDomain ?srv sample_system ?href (sample_client ''3.6''))
      = Returns [Some sample_pd]"
    by (simp add: GetProtectionDomain_def getJSONWithRetry_first_ok)
  have ne: "[Some sample_pd] \<noteq> []" by simp
  from FindProtectionDomain_href_returns_first [OF h g ne, of "''ffff''" "''other''"]
  have "fst (FindProtectionDomain ?srv sample_system ''ffff'' ''other'' ?href (sample_client ''3.6''))
      = Returns sample_pd"
    by simp
  with g show ?thesis
    by (simp add: sample_pd_def)
qed

end
